theory Spec2Isabelle
  imports
    Main
    "HOL-Library.AList"
    "HOL-Library.Char_ord"
    "HOL-Library.List_Lexorder"
    "HOL-Library.Sublist"
begin

section \<open>JavaScript values and the snapshot store\<close>

text \<open>
  The component \<^verbatim>\<open>StateFieldViewer.vue\<close> works on JavaScript values. A primitive is a
  value of its own; an array or an object is held by reference, and \<^verbatim>\<open>===\<close> on two
  references compares the references, not the contents. The store is the list of the
  objects allocated so far; a reference is an index into it. A snapshot that contains
  itself (a cyclic object) is a store whose object at address \<open>a\<close> holds \<open>JRef a\<close>.

  An object is its list of own enumerable properties in the order \<^verbatim>\<open>Object.keys\<close>
  lists them. Numbers are only ever counted or compared here, so they are integers.
\<close>

datatype jsval =
    JUndefined
  | JNull
  | JBool bool
  | JNum int
  | JStr string
  | JRef nat

datatype jsobj =
    JArray "jsval list"
  | JObject "(string \<times> jsval) list"

type_synonym heap = "jsobj list"

datatype error = TypeError

definition alloc :: "jsobj \<Rightarrow> heap \<Rightarrow> jsval \<times> heap" where
  "alloc ob h = (JRef (length h), h @ [ob])"

definition deref :: "heap \<Rightarrow> jsval \<Rightarrow> jsobj option" where
  "deref h v =
     (case v of
        JRef a \<Rightarrow> (if a < length h then Some (h ! a) else None)
      | _ \<Rightarrow> None)"

text \<open>A value is valid in a store when it is a primitive or points into the store.\<close>

definition valid :: "heap \<Rightarrow> jsval \<Rightarrow> bool" where
  "valid h v = (case v of JRef a \<Rightarrow> a < length h | _ \<Rightarrow> True)"

text \<open>
  Modelled from the spec: \<^verbatim>\<open>isArray\<close> and \<^verbatim>\<open>isObject\<close> of \<^verbatim>\<open>@vue/devtools-shared\<close> are
  not in the sources. The spec (4.2) separates ``the raw value is an array'' from ``the
  raw value is a non-array object''; every other value is neither.
\<close>

definition isArray :: "heap \<Rightarrow> jsval \<Rightarrow> bool" where
  "isArray h v = (case deref h v of Some (JArray xs) \<Rightarrow> True | _ \<Rightarrow> False)"

definition isObject :: "heap \<Rightarrow> jsval \<Rightarrow> bool" where
  "isObject h v = (case deref h v of Some (JObject ps) \<Rightarrow> True | _ \<Rightarrow> False)"

text \<open>The elements of an array (\<^verbatim>\<open>value.slice\<close>, \<^verbatim>\<open>value.length\<close> read them).\<close>

definition elems :: "heap \<Rightarrow> jsval \<Rightarrow> jsval list" where
  "elems h v = (case deref h v of Some (JArray xs) \<Rightarrow> xs | _ \<Rightarrow> [])"

text \<open>\<^verbatim>\<open>Object.keys(value)\<close> of an object.\<close>

definition Object_keys :: "heap \<Rightarrow> jsval \<Rightarrow> string list" where
  "Object_keys h v = (case deref h v of Some (JObject ps) \<Rightarrow> map fst ps | _ \<Rightarrow> [])"

text \<open>
  Property access that does not throw: \<^verbatim>\<open>v?.name\<close>, and \<^verbatim>\<open>v[name]\<close> on an object.
  On \<^verbatim>\<open>null\<close> and \<^verbatim>\<open>undefined\<close> the optional chain gives \<^verbatim>\<open>undefined\<close>. The names
  this component reads (\<^verbatim>\<open>_custom\<close>, \<^verbatim>\<open>type\<close>, \<^verbatim>\<open>fields\<close>, \<^verbatim>\<open>abstract\<close>, \<^verbatim>\<open>key\<close>,
  \<^verbatim>\<open>value\<close>, \<^verbatim>\<open>editable\<close>, \<^verbatim>\<open>creating\<close>) are properties of no array and of no
  primitive, so there the access gives \<^verbatim>\<open>undefined\<close> as well.
\<close>

definition own_prop :: "(string \<times> jsval) list \<Rightarrow> string \<Rightarrow> jsval" where
  "own_prop ps name = (case map_of ps name of Some x \<Rightarrow> x | None \<Rightarrow> JUndefined)"

definition member :: "heap \<Rightarrow> jsval \<Rightarrow> string \<Rightarrow> jsval" where
  "member h v name =
     (case deref h v of
        Some (JObject ps) \<Rightarrow> own_prop ps name
      | _ \<Rightarrow> JUndefined)"

definition nullish :: "jsval \<Rightarrow> bool" where
  "nullish v = (v = JUndefined \<or> v = JNull)"

text \<open>JavaScript's truthiness (\<^verbatim>\<open>if (v)\<close>, \<^verbatim>\<open>!v\<close>, \<^verbatim>\<open>a || b\<close>).\<close>

fun truthy :: "jsval \<Rightarrow> bool" where
  "truthy JUndefined = False"
| "truthy JNull = False"
| "truthy (JBool b) = b"
| "truthy (JNum n) = (n \<noteq> 0)"
| "truthy (JStr s) = (s \<noteq> [])"
| "truthy (JRef a) = True"

text \<open>\<^verbatim>\<open>typeof v\<close>; the snapshot holds no functions, symbols or bigints.\<close>

fun typeof :: "jsval \<Rightarrow> string" where
  "typeof JUndefined = ''undefined''"
| "typeof JNull = ''object''"
| "typeof (JBool b) = ''boolean''"
| "typeof (JNum n) = ''number''"
| "typeof (JStr s) = ''string''"
| "typeof (JRef a) = ''object''"

text \<open>
  The text of an array index, as the template literal \<^verbatim>\<open>${i}\<close> writes it: its decimal
  digits, the most significant first.
\<close>

definition digit :: "nat \<Rightarrow> char" where
  "digit d = ''0123456789'' ! (d mod 10)"

fun index_text :: "nat \<Rightarrow> string" where
  "index_text i = (if 10 \<le> i then index_text (i div 10) @ [digit i] else [digit i])"

declare index_text.simps [simp del]

text \<open>\<^verbatim>\<open>key.split('.')\<close>: the pieces between the separators, empty pieces included.\<close>

fun split :: "char \<Rightarrow> string \<Rightarrow> string list" where
  "split c [] = [[]]"
| "split c (x # xs) =
     (if x = c then [] # split c xs
      else (case split c xs of
              [] \<Rightarrow> [[x]]
            | y # ys \<Rightarrow> (x # y) # ys))"

section \<open>The node, its raw view and its children\<close>

text \<open>
  \<^verbatim>\<open>props.data\<close> is an \<^verbatim>\<open>InspectorState\<close>: \<^verbatim>\<open>key\<close>, \<^verbatim>\<open>value\<close>, \<^verbatim>\<open>editable\<close>,
  \<^verbatim>\<open>stateType\<close>, \<^verbatim>\<open>stateTypeName\<close>, and the \<^verbatim>\<open>_custom\<close> wrapper the component reads
  through \<^verbatim>\<open>(props.data as InspectorCustomState)._custom?.stateTypeName\<close>. A field that
  may be absent is an option; \<^verbatim>\<open>editable\<close> is the boolean of the spec's data model, so
  that \<^verbatim>\<open>&&\<close> on it is conjunction.
\<close>

record CustomState =
  customStateTypeName :: "string option"

record InspectorState =
  key :: string
  val :: jsval
  editable :: bool
  stateType :: "string option"
  stateTypeName :: "string option"
  custom :: "CustomState option"

text \<open>
  \<^verbatim>\<open>raw.value\<close> is what \<^verbatim>\<open>getRaw(props.data.value)\<close> returned, a helper of
  \<^verbatim>\<open>@vue/devtools-kit\<close> that is not in the sources: the component only destructures
  \<^verbatim>\<open>{ value, inherit, customType }\<close>, so the three are taken as given. \<open>inherit\<close> is
  the list of the own properties of the inherited bag.
\<close>

record Raw =
  rawValue :: jsval
  inherit :: "(string \<times> jsval) list"
  customType :: "string option"

definition STATE_FIELDS_LIMIT_SIZE :: nat where
  "STATE_FIELDS_LIMIT_SIZE = 30"

text \<open>
  The object spread \<^verbatim>\<open>{ ...src }\<close> into an object literal under construction: each
  property of \<open>src\<close> is set in turn; setting a name the object already has replaces its
  value in place, a new name is appended.
\<close>

definition spread :: "(string \<times> jsval) list \<Rightarrow> (string \<times> jsval) list \<Rightarrow> (string \<times> jsval) list" where
  "spread src obj = fold (\<lambda>(k, v). AList.update k v) src obj"

text \<open>
  The child literal of both branches:
  \<^verbatim>\<open>{ key: k, value: item, ...inherit, editable: e, creating: false }\<close>.
\<close>

definition child :: "string \<Rightarrow> jsval \<Rightarrow> (string \<times> jsval) list \<Rightarrow> bool \<Rightarrow> jsobj" where
  "child k item inh e =
     JObject
       (AList.update ''creating'' (JBool False)
         (AList.update ''editable'' (JBool e)
           (spread inh [(''key'', JStr k), (''value'', item)])))"

text \<open>
  \<^verbatim>\<open>xs.map(f)\<close> where \<open>f\<close> builds an object literal: every call allocates its object, and
  the results are collected in a new array.
\<close>

fun map_alloc :: "('a \<Rightarrow> jsobj) \<Rightarrow> 'a list \<Rightarrow> heap \<Rightarrow> jsval list \<times> heap" where
  "map_alloc f [] h = ([], h)"
| "map_alloc f (x # xs) h =
     (let (r, h1) = alloc (f x) h;
          (rs, h2) = map_alloc f xs h1
      in (r # rs, h2))"

definition array_map :: "('a \<Rightarrow> jsobj) \<Rightarrow> 'a list \<Rightarrow> heap \<Rightarrow> jsval \<times> heap" where
  "array_map f xs h = (let (rs, h1) = map_alloc f xs h in alloc (JArray rs) h1)"

text \<open>The key of a child object as text (the empty text when it has no string key).\<close>

definition child_key :: "jsobj \<Rightarrow> string" where
  "child_key ob =
     (case ob of
        JObject ps \<Rightarrow> (case map_of ps ''key'' of Some (JStr s) \<Rightarrow> s | _ \<Rightarrow> [])
      | JArray xs \<Rightarrow> [])"

definition key_of :: "heap \<Rightarrow> jsval \<Rightarrow> string" where
  "key_of h c = (case deref h c of Some ob \<Rightarrow> child_key ob | None \<Rightarrow> [])"

text \<open>
  Modelled from the spec: \<^verbatim>\<open>sortByKey\<close> of \<^verbatim>\<open>@vue/devtools-shared\<close> is not in the
  sources. The spec (4.2): ``children are sorted by key (lexical)''. The result is a new
  array holding the same children, ordered by their \<^verbatim>\<open>key\<close> text, code unit by code
  unit; children with equal keys keep their order.
\<close>

definition sortByKey :: "jsval \<Rightarrow> heap \<Rightarrow> jsval \<times> heap" where
  "sortByKey arr h = alloc (JArray (sort_key (key_of h) (elems h arr))) h"

text \<open>
  \<^verbatim>\<open>const isUneditableType = customType === 'set'\<close>, and the \<^verbatim>\<open>editable\<close> of every child.
\<close>

definition isUneditableType :: "Raw \<Rightarrow> bool" where
  "isUneditableType raw = (customType raw = Some ''set'')"

definition child_editable :: "InspectorState \<Rightarrow> Raw \<Rightarrow> bool" where
  "child_editable data raw = (editable data \<and> \<not> isUneditableType raw)"

text \<open>The computed property \<^verbatim>\<open>fieldsCount\<close>.\<close>

definition fieldsCount :: "heap \<Rightarrow> Raw \<Rightarrow> nat" where
  "fieldsCount h raw =
     (let v = rawValue raw in
      if isArray h v then length (elems h v)
      else if isObject h v then length (Object_keys h v)
      else 0)"

text \<open>
  The computed property \<^verbatim>\<open>normalizedDisplayedChildren\<close>, in two parts. The first is the
  variable \<^verbatim>\<open>displayedChildren\<close> as it stands before the last line, for a raw value
  that is not an array: the empty array literal it starts as, or the mapped (and, for a
  node whose type is not \<^verbatim>\<open>custom\<close>, sorted) children of an object. \<open>vtype\<close> is
  \<^verbatim>\<open>type.value\<close>, the result of the absent \<^verbatim>\<open>getInspectorStateValueType\<close>. The arrays
  \<^verbatim>\<open>Object.keys(value)\<close> and \<^verbatim>\<open>slice(0, limit)\<close> are temporaries that nothing holds on
  to, so they are lists and take no address.
\<close>

definition displayedChildren :: "heap \<Rightarrow> InspectorState \<Rightarrow> Raw \<Rightarrow> string \<Rightarrow> nat \<Rightarrow> jsval \<times> heap" where
  "displayedChildren h data raw vtype limit =
     (let v = rawValue raw;
          (empty, h0) = alloc (JArray []) h
      in if isObject h0 v then
           let (mapped, h1) =
                 array_map
                   (\<lambda>k. child (key data @ ''.'' @ k) (member h0 v k) (inherit raw)
                          (child_editable data raw))
                   (take limit (Object_keys h0 v)) h0
           in if vtype \<noteq> ''custom'' then sortByKey mapped h1 else (mapped, h1)
         else (empty, h0))"

text \<open>
  The whole property: an array returns its mapped slice at once; everything else goes
  through the last line,
  \<^verbatim>\<open>displayedChildren === props.data.value ? [] : displayedChildren\<close>.
\<close>

definition normalizedDisplayedChildren :: "heap \<Rightarrow> InspectorState \<Rightarrow> Raw \<Rightarrow> string \<Rightarrow> nat \<Rightarrow> jsval \<times> heap" where
  "normalizedDisplayedChildren h data raw vtype limit =
     (let v = rawValue raw;
          (empty, h0) = alloc (JArray []) h
      in if isArray h0 v then
           let sliced = take limit (elems h0 v)
           in array_map
                (\<lambda>(item, i). child (key data @ ''.'' @ index_text i) item (inherit raw)
                               (child_editable data raw))
                (zip sliced [0 ..< length sliced]) h0
         else
           let (dc, h1) = displayedChildren h data raw vtype limit
           in if dc = val data then alloc (JArray []) h1 else (dc, h1))"

text \<open>
  What a computed array holds: the objects its elements point to.
\<close>

definition read_array :: "jsval \<times> heap \<Rightarrow> jsobj option list" where
  "read_array res = (case res of (r, h) \<Rightarrow> map (deref h) (elems h r))"

text \<open>The computed property \<^verbatim>\<open>hasChildren\<close>.\<close>

definition hasChildren :: "heap \<Rightarrow> InspectorState \<Rightarrow> Raw \<Rightarrow> string \<Rightarrow> nat \<Rightarrow> bool" where
  "hasChildren h data raw vtype limit =
     (case normalizedDisplayedChildren h data raw vtype limit of
        (r, h') \<Rightarrow> length (elems h' r) > 0)"

text \<open>
  The property \<open>name\<close> of every child of a computed array, in the array's order.
\<close>

definition obj_member :: "jsobj option \<Rightarrow> string \<Rightarrow> jsval" where
  "obj_member ob name = (case ob of Some (JObject ps) \<Rightarrow> own_prop ps name | _ \<Rightarrow> JUndefined)"

definition children_prop :: "string \<Rightarrow> jsval \<times> heap \<Rightarrow> jsval list" where
  "children_prop name res = (case res of (r, h) \<Rightarrow> map (\<lambda>c. member h c name) (elems h r))"

text \<open>The key text of every child of a computed array, in the array's order.\<close>

definition children_keys :: "jsval \<times> heap \<Rightarrow> string list" where
  "children_keys res = (case res of (r, h) \<Rightarrow> map (key_of h) (elems h r))"

text \<open>
  A store is well formed when every value an object holds is valid in it: the snapshot
  has no dangling reference.
\<close>

definition held :: "jsobj \<Rightarrow> jsval list" where
  "held ob = (case ob of JArray xs \<Rightarrow> xs | JObject ps \<Rightarrow> map snd ps)"

definition wf_store :: "heap \<Rightarrow> bool" where
  "wf_store h = list_all (\<lambda>ob. list_all (valid h) (held ob)) h"

text \<open>
  The ``show more'' button: \<^verbatim>\<open>@click="limit += STATE_FIELDS_LIMIT_SIZE"\<close>, rendered under
  \<^verbatim>\<open>v-if="fieldsCount > limit"\<close> inside the block that is itself rendered under
  \<^verbatim>\<open>v-if="hasChildren && expanded.includes(...)"\<close>. \<open>isExpanded\<close> is the answer of the
  expansion tracker for this node.
\<close>

definition showMore :: "nat \<Rightarrow> nat" where
  "showMore limit = limit + STATE_FIELDS_LIMIT_SIZE"

definition showMoreShown :: "heap \<Rightarrow> InspectorState \<Rightarrow> Raw \<Rightarrow> string \<Rightarrow> nat \<Rightarrow> bool \<Rightarrow> bool" where
  "showMoreShown h data raw vtype limit isExpanded =
     (hasChildren h data raw vtype limit \<and> isExpanded \<and> fieldsCount h raw > limit)"

section \<open>The displayed value\<close>

text \<open>
  \<^verbatim>\<open>a || b\<close> on two optional texts: the first when it is truthy (present and not
  empty), the second otherwise.
\<close>

definition truthy_text :: "string option \<Rightarrow> bool" where
  "truthy_text a = (case a of Some s \<Rightarrow> s \<noteq> [] | None \<Rightarrow> False)"

definition js_or :: "string option \<Rightarrow> string option \<Rightarrow> string option" where
  "js_or a b = (if truthy_text a then a else b)"

definition the_text :: "string option \<Rightarrow> string" where
  "the_text a = (case a of Some s \<Rightarrow> s | None \<Rightarrow> [])"

definition directlyDisplayedValueMap :: "string list" where
  "directlyDisplayedValueMap = [''Reactive'']"

definition array_includes :: "string list \<Rightarrow> string option \<Rightarrow> bool" where
  "array_includes xs a = (case a of Some s \<Rightarrow> s \<in> set xs | None \<Rightarrow> False)"

text \<open>
  \<^verbatim>\<open>(props.data as InspectorCustomState)._custom?.stateTypeName || props.data?.stateTypeName\<close>
\<close>

definition extraDisplayedValue :: "InspectorState \<Rightarrow> string option" where
  "extraDisplayedValue data =
     js_or (case custom data of Some c \<Rightarrow> customStateTypeName c | None \<Rightarrow> None)
           (stateTypeName data)"

text \<open>
  \<^verbatim>\<open>(props.data.value as InspectorCustomState['_custom'])?.fields?.abstract\<close>, tested for
  truthiness.
\<close>

definition fields_abstract :: "heap \<Rightarrow> InspectorState \<Rightarrow> bool" where
  "fields_abstract h data = truthy (member h (member h (val data) ''fields'') ''abstract'')"

text \<open>
  \<^verbatim>\<open>!(props.data.value as InspectorCustomState)._custom?.type\<close>: the custom value has no
  explicit type.
\<close>

definition lacks_custom_type :: "heap \<Rightarrow> InspectorState \<Rightarrow> bool" where
  "lacks_custom_type h data = (\<not> truthy (member h (member h (val data) ''_custom'') ''type''))"

text \<open>
  The abstract mark on the custom wrapper, \<^verbatim>\<open>value._custom.fields.abstract\<close>: the wrapper
  is where the source reads the custom type from. The source does not look for the mark
  here; the definition names the values on which the two places differ.
\<close>

definition wrapper_fields_abstract :: "heap \<Rightarrow> InspectorState \<Rightarrow> bool" where
  "wrapper_fields_abstract h data =
     truthy (member h (member h (member h (val data) ''_custom'') ''fields'') ''abstract'')"

text \<open>
  The computed property \<^verbatim>\<open>normalizedDisplayedValue\<close>. \<open>vtype\<close> is \<^verbatim>\<open>type.value\<close> and
  \<open>displayedValue\<close> the text \<^verbatim>\<open>formatInspectorStateValue(props.data.value)\<close> gave; both
  helpers belong to \<^verbatim>\<open>@vue/devtools-kit\<close> and are not in the sources. Reading
  \<^verbatim>\<open>._custom\<close> without \<^verbatim>\<open>?.\<close> throws on \<^verbatim>\<open>null\<close> and \<^verbatim>\<open>undefined\<close>, and the
  source does so once \<^verbatim>\<open>type.value === 'custom'\<close>.
\<close>

definition normalizedDisplayedValue :: "heap \<Rightarrow> InspectorState \<Rightarrow> string \<Rightarrow> string \<Rightarrow> error + string" where
  \<open>normalizedDisplayedValue h data vtype displayedValue =
     (let extra = extraDisplayedValue data in
      if array_includes directlyDisplayedValueMap extra then Inr (the_text extra)
      else if fields_abstract h data then Inr []
      else if vtype = ''custom'' \<and> nullish (val data) then Inl TypeError
      else
        let v = (if vtype = ''custom'' \<and> lacks_custom_type h data
                 then ''"'' @ displayedValue @ ''"''
                 else if displayedValue = [] then ''""'' else displayedValue);
            result = ''<span class="'' @ vtype @ ''-state-type">'' @ v @ ''</span>''
        in if truthy_text extra
           then Inr (result @ '' <span class="text-gray-500">('' @ the_text extra @ '')</span>'')
           else Inr result)\<close>

section \<open>Editing a field and drafting a new one\<close>

text \<open>
  The patch handed to the edit transport (\<^verbatim>\<open>InspectorStateEditorPayload\<close>). Its own
  \<^verbatim>\<open>type\<close> is \<open>ptype\<close> here, and the \<^verbatim>\<open>type\<close> and \<^verbatim>\<open>value\<close> of its \<^verbatim>\<open>state\<close> are
  \<open>stype\<close> and \<open>svalue\<close>.
\<close>

record PatchState =
  newKey :: "string option"
  stype :: string
  svalue :: jsval

record Payload =
  path :: "string list"
  inspectorId :: string
  ptype :: "string option"
  nodeId :: string
  state :: PatchState

text \<open>The one draft slot \<^verbatim>\<open>draftingNewProp\<close>: \<^verbatim>\<open>{ enable, key, value }\<close>.\<close>

record Drafting =
  enable :: bool
  draftKey :: string
  draftValue :: string

text \<open>
  What the composables hold for the component: the editing session of
  \<^verbatim>\<open>useStateEditor\<close>, the draft slot of \<^verbatim>\<open>useStateEditorDrafting\<close>, the identifiers of
  \<^verbatim>\<open>useStateEditorContext\<close>, and the patches the edit transport has been given so far.
\<close>

record Session =
  editing :: bool
  editingText :: string
  editingType :: string
  draftingNewProp :: Drafting
  sessionInspectorId :: string
  sessionNodeId :: string
  sent :: "Payload list"

text \<open>
  Modelled from the spec: \<^verbatim>\<open>editInspectorState\<close> of \<^verbatim>\<open>@vue/devtools-core\<close> is not in the
  sources. The spec (6): the edit transport ``accepts a patch object''; nothing it returns
  is observed. Each call adds its patch to the patches sent.
\<close>

definition editInspectorState :: "Payload \<Rightarrow> Session \<Rightarrow> Session" where
  "editInspectorState p s = s\<lparr>sent := sent s @ [p]\<rparr>"

text \<open>
  Modelled from the spec: \<^verbatim>\<open>toggleEditing\<close> of \<^verbatim>\<open>useStateEditor\<close> is not in the sources.
  The spec (4.4): a field is \<open>Viewing\<close> or \<open>Editing\<close>, and submit ``transitions back to
  Viewing''; the toggle switches between the two.
\<close>

definition toggleEditing :: "Session \<Rightarrow> Session" where
  "toggleEditing s = s\<lparr>editing := \<not> editing s\<rparr>"

text \<open>
  The callback of \<^verbatim>\<open>watch(() => editing.value, ...)\<close>. \<open>toEdit\<close> is the encoder of
  \<^verbatim>\<open>@vue/devtools-kit\<close>, taken as given.
\<close>

definition watch_editing :: "(jsval \<Rightarrow> string option \<Rightarrow> string) \<Rightarrow> Raw \<Rightarrow> Session \<Rightarrow> Session" where
  "watch_editing toEdit raw s =
     (if editing s then s\<lparr>editingText := toEdit (rawValue raw) (customType raw)\<rparr>
      else s\<lparr>editingText := []\<rparr>)"

text \<open>A toggle always changes \<^verbatim>\<open>editing\<close>, so the watcher runs after each one.\<close>

definition toggled :: "(jsval \<Rightarrow> string option \<Rightarrow> string) \<Rightarrow> Raw \<Rightarrow> Session \<Rightarrow> Session" where
  "toggled toEdit raw s = watch_editing toEdit raw (toggleEditing s)"

text \<open>
  \<^verbatim>\<open>submit()\<close>. \<open>toSubmit\<close> is the decoder of \<^verbatim>\<open>@vue/devtools-kit\<close>, taken as given:
  its second argument is the custom type, \<open>None\<close> when the call passes none.
\<close>

definition submit ::
  "(string \<Rightarrow> string option \<Rightarrow> jsval) \<Rightarrow> (jsval \<Rightarrow> string option \<Rightarrow> string) \<Rightarrow>
   InspectorState \<Rightarrow> Raw \<Rightarrow> Session \<Rightarrow> Session" where
  "submit toSubmit toEdit data raw s =
     toggled toEdit raw
       (editInspectorState
          \<lparr>path = split (CHR ''.'') (key data),
           inspectorId = sessionInspectorId s,
           ptype = stateType data,
           nodeId = sessionNodeId s,
           state = \<lparr>newKey = None,
                    stype = editingType s,
                    svalue = toSubmit (editingText s) (customType raw)\<rparr>\<rparr>
          s)"

text \<open>
  Modelled from the spec: \<^verbatim>\<open>resetDrafting\<close> of \<^verbatim>\<open>useStateEditorDrafting\<close> is not in the
  sources. The spec (4.4): it ``clears the single shared draft slot''; a draft begins
  ``with an empty key''. \<open>blank\<close> is the value text the composable leaves in the cleared
  slot.
\<close>

definition resetDrafting :: "string \<Rightarrow> Session \<Rightarrow> Session" where
  "resetDrafting blank s =
     s\<lparr>draftingNewProp := \<lparr>enable = False, draftKey = [], draftValue = blank\<rparr>\<rparr>"

text \<open>
  \<^verbatim>\<open>submitDrafting()\<close>: both calls of \<^verbatim>\<open>toSubmit\<close> pass the draft text alone.
\<close>

definition submitDrafting ::
  "(string \<Rightarrow> string option \<Rightarrow> jsval) \<Rightarrow> string \<Rightarrow> InspectorState \<Rightarrow> Session \<Rightarrow> Session" where
  "submitDrafting toSubmit blank data s =
     resetDrafting blank
       (editInspectorState
          \<lparr>path = split (CHR ''.'') (key data) @ [draftKey (draftingNewProp s)],
           inspectorId = sessionInspectorId s,
           ptype = stateType data,
           nodeId = sessionNodeId s,
           state = \<lparr>newKey = Some (draftKey (draftingNewProp s)),
                    stype = typeof (toSubmit (draftValue (draftingNewProp s)) None),
                    svalue = toSubmit (draftValue (draftingNewProp s)) None\<rparr>\<rparr>
          s)"

text \<open>The draft row's \<^verbatim>\<open>@cancel="resetDrafting"\<close>.\<close>

definition cancelDrafting :: "string \<Rightarrow> Session \<Rightarrow> Session" where
  "cancelDrafting blank s = resetDrafting blank s"

section \<open>Sample inputs\<close>

text \<open>Concrete nodes, stores and sessions on which the theorems below are run.\<close>

definition sample_data :: InspectorState where
  "sample_data = \<lparr>key = ''a.b'', val = JNum 1, editable = True, stateType = Some ''setup'',
                   stateTypeName = None, custom = None\<rparr>"

definition sample_raw :: Raw where
  "sample_raw = \<lparr>rawValue = JNum 1, inherit = [], customType = Some ''set''\<rparr>"

definition sample_session :: Session where
  "sample_session = \<lparr>editing = True, editingText = ''42'', editingType = ''number'',
      draftingNewProp = \<lparr>enable = True, draftKey = ''c'', draftValue = ''7''\<rparr>,
      sessionInspectorId = ''pinia'', sessionNodeId = ''root'', sent = []\<rparr>"

definition sample_toSubmit :: "string \<Rightarrow> string option \<Rightarrow> jsval" where
  "sample_toSubmit t c = (case c of None \<Rightarrow> JStr t | Some x \<Rightarrow> JStr (x @ '':'' @ t))"

definition sample_toEdit :: "jsval \<Rightarrow> string option \<Rightarrow> string" where
  "sample_toEdit v c = ''text''"

definition sample_heap :: heap where
  "sample_heap = [JObject [(''fields'', JRef 1)], JObject [(''abstract'', JBool True)]]"

definition abstract_data :: InspectorState where
  "abstract_data = \<lparr>key = ''m'', val = JRef 0, editable = True, stateType = None,
                     stateTypeName = Some ''Map'', custom = None\<rparr>"

definition reactive_data :: InspectorState where
  "reactive_data = \<lparr>key = ''r'', val = JRef 0, editable = True, stateType = None,
                     stateTypeName = None,
                     custom = Some \<lparr>customStateTypeName = Some ''Reactive''\<rparr>\<rparr>"

definition node_reactive_data :: InspectorState where
  "node_reactive_data = \<lparr>key = ''n'', val = JNum 5, editable = True, stateType = None,
                          stateTypeName = Some ''Reactive'', custom = None\<rparr>"

definition shadowed_data :: InspectorState where
  "shadowed_data = \<lparr>key = ''x'', val = JStr ''x'', editable = True, stateType = None,
                     stateTypeName = Some ''Reactive'',
                     custom = Some \<lparr>customStateTypeName = Some ''Ref''\<rparr>\<rparr>"

definition unnamed_wrapper_data :: InspectorState where
  "unnamed_wrapper_data = \<lparr>key = ''u'', val = JNum 5, editable = True, stateType = None,
                            stateTypeName = Some ''Reactive'',
                            custom = Some \<lparr>customStateTypeName = Some []\<rparr>\<rparr>"

definition map_store :: heap where
  "map_store = [JObject [(''_custom'', JRef 1)],
                JObject [(''type'', JStr ''map''), (''fields'', JRef 2)],
                JObject [(''abstract'', JBool True)]]"

definition map_data :: InspectorState where
  "map_data = \<lparr>key = ''m'', val = JRef 0, editable = True, stateType = None,
                stateTypeName = None, custom = None\<rparr>"

definition untyped_store :: heap where
  "untyped_store = [JObject [(''_custom'', JRef 1)], JObject [(''value'', JStr ''hello'')]]"

definition untyped_data :: InspectorState where
  "untyped_data = \<lparr>key = ''c'', val = JRef 0, editable = True, stateType = None,
                    stateTypeName = None, custom = None\<rparr>"

definition plain_data :: InspectorState where
  "plain_data = \<lparr>key = ''s'', val = JStr [], editable = True, stateType = None,
                     stateTypeName = Some ''Ref'', custom = None\<rparr>"

definition array45_store :: heap where
  "array45_store = [JArray (replicate 45 JNull)]"

definition list_data :: InspectorState where
  "list_data = \<lparr>key = ''list'', val = JRef 0, editable = True, stateType = Some ''state'',
                 stateTypeName = None, custom = None\<rparr>"

definition list_raw :: Raw where
  "list_raw = \<lparr>rawValue = JRef 0, inherit = [], customType = None\<rparr>"

definition set_store :: heap where
  "set_store = [JObject [(''_custom'', JRef 1)], JObject [(''type'', JStr ''set''), (''value'', JRef 2)],
                JArray [JNum 1, JNum 2]]"

definition set_data :: InspectorState where
  "set_data = \<lparr>key = ''tags'', val = JRef 0, editable = True, stateType = Some ''state'',
                stateTypeName = None, custom = None\<rparr>"

definition set_raw :: Raw where
  "set_raw = \<lparr>rawValue = JRef 2, inherit = [(''abstract'', JBool True)], customType = Some ''set''\<rparr>"

definition ba_store :: heap where
  "ba_store = [JObject [(''b'', JNum 1), (''a'', JNum 2)]]"

definition ba_data :: InspectorState where
  "ba_data = \<lparr>key = ''o'', val = JRef 0, editable = True, stateType = Some ''state'',
               stateTypeName = None, custom = None\<rparr>"

definition ba_raw :: Raw where
  "ba_raw = \<lparr>rawValue = JRef 0, inherit = [], customType = None\<rparr>"

definition cyclic_store :: heap where
  "cyclic_store = [JObject [(''self'', JRef 0)]]"

definition cyclic_data :: InspectorState where
  "cyclic_data = \<lparr>key = ''o'', val = JRef 0, editable = True, stateType = Some ''state'',
                   stateTypeName = None, custom = None\<rparr>"

definition cyclic_raw :: Raw where
  "cyclic_raw = \<lparr>rawValue = JRef 0, inherit = [], customType = None\<rparr>"

definition abstract_raw :: Raw where
  "abstract_raw = \<lparr>rawValue = JRef 0, inherit = [], customType = None\<rparr>"

section \<open>Store lemmas\<close>

text \<open>
  Allocation only appends: an object that exists keeps its address and its contents, and
  the objects a \<^verbatim>\<open>map\<close> builds take the next addresses in order.
\<close>

lemma deref_Some_append: "deref h v = Some ob \<Longrightarrow> deref (h @ hs) v = Some ob"
  by (cases v) (auto simp: deref_def nth_append split: if_splits)

lemma map_alloc_eq:
  "map_alloc f xs h = (map JRef [length h ..< length h + length xs], h @ map f xs)"
proof (induction xs arbitrary: h)
  case Nil
  show ?case by simp
next
  case (Cons x xs)
  have "[length h ..< length h + Suc (length xs)] = length h # [Suc (length h) ..< Suc (length h) + length xs]"
    by (subst upt_rec) simp
  then show ?case
    by (simp add: Cons.IH alloc_def)
qed

lemma array_map_eq:
  "array_map f xs h =
     (JRef (length h + length xs),
      h @ map f xs @ [JArray (map JRef [length h ..< length h + length xs])])"
  by (simp add: array_map_def map_alloc_eq alloc_def)

lemma deref_fresh_objects:
  "map (deref (h @ ys @ zs)) (map JRef [length h ..< length h + length ys]) = map Some ys"
  by (rule nth_equalityI) (simp_all add: deref_def nth_append)

lemma read_array_array_map:
  "read_array (array_map f xs h) = map (\<lambda>x. Some (f x)) xs"
  using deref_fresh_objects [of h "map f xs" "[JArray (map JRef [length h ..< length h + length xs])]"]
  by (simp add: read_array_def array_map_eq elems_def deref_def nth_append comp_def)

lemma insort_key_map:
  "insort_key k (g x) (map g ys) = map g (insort_key (\<lambda>y. k (g y)) x ys)"
  by (induction ys) simp_all

lemma sort_key_map:
  "sort_key k (map g xs) = map g (sort_key (\<lambda>x. k (g x)) xs)"
  by (induction xs) (simp_all add: insort_key_map)

lemma key_of_fresh:
  "i < length ys \<Longrightarrow> key_of (h @ ys @ zs) (JRef (length h + i)) = child_key (ys ! i)"
  by (simp add: key_of_def deref_def nth_append)

lemma insort_key_cong_set:
  "f x = g x \<Longrightarrow> (\<And>y. y \<in> set ys \<Longrightarrow> f y = g y) \<Longrightarrow> insort_key f x ys = insort_key g x ys"
  by (induction ys) simp_all

lemma sort_key_cong_set:
  "(\<And>x. x \<in> set xs \<Longrightarrow> f x = g x) \<Longrightarrow> sort_key f xs = sort_key g xs"
proof (induction xs)
  case Nil
  show ?case by simp
next
  case (Cons x xs)
  have eq: "sort_key f xs = sort_key g xs"
    using Cons by simp
  have "insort_key f x (sort_key g xs) = insort_key g x (sort_key g xs)"
    by (rule insort_key_cong_set) (simp_all add: Cons.prems)
  with eq show ?case by simp
qed

lemma read_array_sortByKey:
  "read_array (case array_map f xs h of (m, h1) \<Rightarrow> sortByKey m h1)
     = map Some (sort_key child_key (map f xs))"
proof -
  define ys where "ys = map f xs"
  define n where "n = length ys"
  define r where "r = (\<lambda>i. JRef (length h + i))"
  define A where "A = JArray (map r [0 ..< n])"
  define h1 where "h1 = h @ ys @ [A]"
  define srt where "srt = sort_key (\<lambda>i. child_key (ys ! i)) [0 ..< n]"
  have refs: "map JRef [length h ..< length h + length xs] = map r [0 ..< n]"
    by (rule nth_equalityI) (simp_all add: r_def n_def ys_def)
  have am: "array_map f xs h = (JRef (length h + n), h1)"
    using refs by (simp add: array_map_eq h1_def A_def ys_def n_def)
  have el: "elems h1 (JRef (length h + n)) = map r [0 ..< n]"
    by (simp add: elems_def deref_def h1_def nth_append n_def A_def)
  have "sort_key (key_of h1) (map r [0 ..< n]) = map r (sort_key (\<lambda>i. key_of h1 (r i)) [0 ..< n])"
    by (rule sort_key_map)
  also have "sort_key (\<lambda>i. key_of h1 (r i)) [0 ..< n] = srt"
    unfolding srt_def
    by (rule sort_key_cong_set) (simp add: r_def h1_def key_of_fresh n_def)
  finally have sorted_refs: "sort_key (key_of h1) (map r [0 ..< n]) = map r srt" .
  have set_srt: "set srt = {0 ..< n}"
    by (simp add: srt_def)
  have rd: "map (deref (h1 @ [B])) (map r srt) = map (\<lambda>i. Some (ys ! i)) srt" for B
    using set_srt by (auto simp: r_def h1_def deref_def nth_append n_def)
  have "map (\<lambda>i. ys ! i) srt = sort_key child_key (map (\<lambda>i. ys ! i) [0 ..< n])"
    by (simp add: srt_def sort_key_map)
  also have "map (\<lambda>i. ys ! i) [0 ..< n] = ys"
    by (simp add: n_def map_nth)
  finally have final: "map (\<lambda>i. ys ! i) srt = sort_key child_key ys" .
  have sb: "sortByKey (JRef (length h + n)) h1 = (JRef (length h1), h1 @ [JArray (map r srt)])"
    by (simp add: sortByKey_def alloc_def el sorted_refs)
  have el2: "elems (h1 @ [JArray zs]) (JRef (length h1)) = zs" for zs
    by (simp add: elems_def deref_def)
  have "read_array (sortByKey (JRef (length h + n)) h1) = map (\<lambda>i. Some (ys ! i)) srt"
    unfolding sb read_array_def prod.case el2 by (rule rd)
  also have "\<dots> = map Some (map (\<lambda>i. ys ! i) srt)"
    by simp
  also have "\<dots> = map Some (sort_key child_key ys)"
    by (simp only: final)
  finally have "read_array (sortByKey (JRef (length h + n)) h1) = map Some (sort_key child_key ys)" .
  then show ?thesis
    by (simp only: am prod.case ys_def)
qed


lemma normalized_array0:
  assumes "deref (h @ [JArray []]) (rawValue raw) = Some (JArray xs)"
  shows "normalizedDisplayedChildren h data raw vtype limit =
           array_map
             (\<lambda>(item, i). child (key data @ ''.'' @ index_text i) item (inherit raw)
                            (child_editable data raw))
             (zip (take limit xs) [0 ..< min (length xs) limit]) (h @ [JArray []])"
  using assms
  by (simp add: normalizedDisplayedChildren_def alloc_def isArray_def elems_def)

lemma normalized_array:
  assumes "deref h (rawValue raw) = Some (JArray xs)"
  shows "normalizedDisplayedChildren h data raw vtype limit =
           array_map
             (\<lambda>(item, i). child (key data @ ''.'' @ index_text i) item (inherit raw)
                            (child_editable data raw))
             (zip (take limit xs) [0 ..< min (length xs) limit]) (h @ [JArray []])"
  using deref_Some_append [OF assms, of "[JArray []]"]
  by (rule normalized_array0)

lemma displayed_object0:
  assumes "deref (h @ [JArray []]) (rawValue raw) = Some (JObject ps)"
  shows "displayedChildren h data raw vtype limit =
           (case array_map
                   (\<lambda>k. child (key data @ ''.'' @ k) (own_prop ps k) (inherit raw)
                          (child_editable data raw))
                   (take limit (map fst ps)) (h @ [JArray []]) of
              (m, h1) \<Rightarrow> if vtype \<noteq> ''custom'' then sortByKey m h1 else (m, h1))"
  using assms
  by (simp add: displayedChildren_def alloc_def isObject_def Object_keys_def member_def)

lemma displayed_other:
  "\<not> isObject (h @ [JArray []]) (rawValue raw) \<Longrightarrow>
     displayedChildren h data raw vtype limit = (JRef (length h), h @ [JArray []])"
  by (simp add: displayedChildren_def alloc_def)

lemma displayed_fresh:
  "\<exists>a hs. displayedChildren h data raw vtype limit = (JRef a, h @ hs) \<and> length h \<le> a"
  by (simp add: displayedChildren_def alloc_def array_map_eq sortByKey_def Let_def)

lemma guard_idle:
  assumes "valid h (val data)"
  shows "fst (displayedChildren h data raw vtype limit) \<noteq> val data"
proof -
  obtain a hs where "displayedChildren h data raw vtype limit = (JRef a, h @ hs)" "length h \<le> a"
    using displayed_fresh by blast
  with assms show ?thesis
    by (cases "val data") (auto simp: valid_def)
qed

lemma normalized_not_array:
  assumes "\<not> isArray (h @ [JArray []]) (rawValue raw)" "valid h (val data)"
  shows "normalizedDisplayedChildren h data raw vtype limit = displayedChildren h data raw vtype limit"
  using assms guard_idle [OF assms(2), of raw vtype limit]
  by (auto simp: normalizedDisplayedChildren_def alloc_def split: prod.splits)

lemma children_prop_read:
  "children_prop name res = map (\<lambda>ob. obj_member ob name) (read_array res)"
  by (cases res) (simp add: children_prop_def read_array_def member_def obj_member_def)

lemma map_of_spread:
  "k \<notin> fst ` set src \<Longrightarrow> map_of (spread src obj) k = map_of obj k"
  unfolding spread_def
  by (induction src arbitrary: obj) (auto simp: update_conv')

lemma child_editable_prop:
  "obj_member (Some (child k item inh e)) ''editable'' = JBool e"
  by (simp add: obj_member_def child_def own_prop_def update_conv')

lemma child_key_prop:
  "''key'' \<notin> fst ` set inh \<Longrightarrow> obj_member (Some (child k item inh e)) ''key'' = JStr k"
  by (simp add: obj_member_def child_def own_prop_def update_conv' map_of_spread)

lemma child_key_child:
  "''key'' \<notin> fst ` set inh \<Longrightarrow> child_key (child k item inh e) = k"
  by (simp add: child_key_def child_def update_conv' map_of_spread)

lemma read_array_empty: "read_array (alloc (JArray []) h) = []"
  by (simp add: read_array_def alloc_def elems_def deref_def)

lemma read_displayed_object0:
  assumes "deref (h @ [JArray []]) (rawValue raw) = Some (JObject ps)"
  shows "read_array (displayedChildren h data raw vtype limit) =
           map Some
             ((if vtype \<noteq> ''custom'' then sort_key child_key else (\<lambda>cs. cs))
                (map (\<lambda>k. child (key data @ ''.'' @ k) (own_prop ps k) (inherit raw)
                            (child_editable data raw))
                     (take limit (map fst ps))))"
proof (cases "vtype \<noteq> ''custom''")
  case True
  then show ?thesis
    using read_array_sortByKey
      [of "\<lambda>k. child (key data @ ''.'' @ k) (own_prop ps k) (inherit raw) (child_editable data raw)"
          "take limit (map fst ps)" "h @ [JArray []]"]
    by (simp add: displayed_object0 [OF assms] split: prod.splits)
next
  case False
  then show ?thesis
    using read_array_array_map
      [of "\<lambda>k. child (key data @ ''.'' @ k) (own_prop ps k) (inherit raw) (child_editable data raw)"
          "take limit (map fst ps)" "h @ [JArray []]"]
    by (simp add: displayed_object0 [OF assms] split: prod.splits)
qed

lemma read_displayed_other:
  "\<not> isObject (h @ [JArray []]) (rawValue raw) \<Longrightarrow>
     read_array (displayedChildren h data raw vtype limit) = []"
  by (simp add: displayed_other read_array_def elems_def deref_def)

lemma isObject_cases:
  "isObject h v \<Longrightarrow> \<exists>ps. deref h v = Some (JObject ps)"
  by (auto simp: isObject_def split: option.splits jsobj.splits)

lemma isArray_cases:
  "isArray h v \<Longrightarrow> \<exists>xs. deref h v = Some (JArray xs)"
  by (auto simp: isArray_def split: option.splits jsobj.splits)

lemma normalized_guarded:
  "\<not> isArray (h @ [JArray []]) (rawValue raw) \<Longrightarrow>
     read_array (normalizedDisplayedChildren h data raw vtype limit) =
       (if fst (displayedChildren h data raw vtype limit) = val data then []
        else read_array (displayedChildren h data raw vtype limit))"
  using read_array_empty
  by (auto simp: normalizedDisplayedChildren_def alloc_def split: prod.splits)

lemma children_shape_key:
  assumes "ob \<in> set (read_array (normalizedDisplayedChildren h data raw vtype limit))"
  shows "\<exists>sfx item. ob = Some (child (key data @ ''.'' @ sfx) item (inherit raw) (child_editable data raw))"
proof (cases "isArray (h @ [JArray []]) (rawValue raw)")
  case True
  then obtain xs where "deref (h @ [JArray []]) (rawValue raw) = Some (JArray xs)"
    using isArray_cases by blast
  with assms show ?thesis
    by (auto simp: normalized_array0 read_array_array_map)
next
  case False
  note na = this
  show ?thesis
  proof (cases "isObject (h @ [JArray []]) (rawValue raw)")
    case True
    then obtain ps where "deref (h @ [JArray []]) (rawValue raw) = Some (JObject ps)"
      using isObject_cases by blast
    with assms na show ?thesis
      by (auto simp: normalized_guarded read_displayed_object0 split: if_splits)
  next
    case False
    with assms na show ?thesis
      by (simp add: normalized_guarded read_displayed_other split: if_splits)
  qed
qed

lemma append_le_append: "(p @ a \<le> p @ b) = (a \<le> (b :: 'a :: linorder list))"
  by (induction p) simp_all

lemma insort_key_reflect:
  "(\<And>y. (g x \<le> g y) = (x \<le> y)) \<Longrightarrow> insort_key g x ys = insort x ys"
  by (induction ys) simp_all

lemma sort_key_reflect:
  "(\<And>x y. (g x \<le> g y) = (x \<le> y)) \<Longrightarrow> sort_key g xs = sort xs"
proof (induction xs)
  case Nil
  show ?case by simp
next
  case (Cons x xs)
  have "insort_key g x (sort xs) = insort x (sort xs)"
    by (rule insort_key_reflect) (rule Cons.prems)
  moreover have "sort_key g xs = sort xs"
    by (rule Cons.IH) (rule Cons.prems)
  ultimately show ?case by simp
qed

lemma sort_children_by_key:
  assumes "''key'' \<notin> fst ` set inh"
  shows "sort_key child_key (map (\<lambda>k. child (p @ k) (f k) inh e) ks) =
           map (\<lambda>k. child (p @ k) (f k) inh e) (sort ks)"
proof -
  have "sort_key child_key (map (\<lambda>k. child (p @ k) (f k) inh e) ks) =
          map (\<lambda>k. child (p @ k) (f k) inh e) (sort_key (\<lambda>k. child_key (child (p @ k) (f k) inh e)) ks)"
    by (rule sort_key_map)
  also have "sort_key (\<lambda>k. child_key (child (p @ k) (f k) inh e)) ks = sort_key (\<lambda>k. p @ k) ks"
    by (simp add: child_key_child [OF assms])
  also have "sort_key (\<lambda>k. p @ k) ks = sort ks"
    by (rule sort_key_reflect) (rule append_le_append)
  finally show ?thesis .
qed


lemma hasChildren_read:
  "hasChildren h data raw vtype limit =
     (read_array (normalizedDisplayedChildren h data raw vtype limit) \<noteq> [])"
  by (simp add: hasChildren_def read_array_def split: prod.splits)

lemma length_read_array_array:
  assumes "deref h (rawValue raw) = Some (JArray xs)"
  shows "length (read_array (normalizedDisplayedChildren h data raw vtype limit)) = min (length xs) limit"
  by (simp add: normalized_array [OF assms] read_array_array_map)

lemma fieldsCount_array:
  assumes "deref h (rawValue raw) = Some (JArray xs)"
  shows "fieldsCount h raw = length xs"
  using assms by (simp add: fieldsCount_def isArray_def elems_def)

lemma children_keys_read:
  "children_keys res = map (\<lambda>ob. case ob of Some x \<Rightarrow> child_key x | None \<Rightarrow> []) (read_array res)"
  by (cases res) (simp add: children_keys_def read_array_def key_of_def)

lemma read_normalized_object:
  assumes "deref h (rawValue raw) = Some (JObject ps)" and "valid h (val data)"
  shows "read_array (normalizedDisplayedChildren h data raw vtype limit) =
           map Some
             ((if vtype \<noteq> ''custom'' then sort_key child_key else (\<lambda>cs. cs))
                (map (\<lambda>k. child (key data @ ''.'' @ k) (own_prop ps k) (inherit raw)
                            (child_editable data raw))
                     (take limit (map fst ps))))"
proof -
  have d0: "deref (h @ [JArray []]) (rawValue raw) = Some (JObject ps)"
    using assms(1) by (rule deref_Some_append)
  then have "\<not> isArray (h @ [JArray []]) (rawValue raw)"
    by (simp add: isArray_def)
  then have "normalizedDisplayedChildren h data raw vtype limit = displayedChildren h data raw vtype limit"
    using assms(2) by (rule normalized_not_array)
  then show ?thesis
    by (simp only: read_displayed_object0 [OF d0])
qed

lemma read_normalized_array:
  assumes "deref h (rawValue raw) = Some (JArray xs)"
  shows "read_array (normalizedDisplayedChildren h data raw vtype limit) =
           map Some
             (map (\<lambda>(item, i). child (key data @ ''.'' @ index_text i) item (inherit raw)
                                  (child_editable data raw))
                  (zip (take limit xs) [0 ..< min (length xs) limit]))"
  by (simp add: normalized_array [OF assms] read_array_array_map comp_def)

lemma valid_append: "valid h v \<Longrightarrow> valid (h @ hs) v"
  by (cases v) (simp_all add: valid_def)

lemma deref_append_valid: "valid h v \<Longrightarrow> deref (h @ hs) v = deref h v"
  by (cases v) (simp_all add: valid_def deref_def nth_append)

lemma member_append_valid: "valid h v \<Longrightarrow> member (h @ hs) v name = member h v name"
  by (simp add: member_def deref_append_valid)

lemma own_prop_held: "own_prop ps name = JUndefined \<or> own_prop ps name \<in> set (map snd ps)"
  by (auto simp: own_prop_def split: option.splits dest: map_of_SomeD intro: rev_image_eqI)

lemma wf_member_valid:
  assumes "wf_store h"
  shows "valid h (member h v name)"
proof (cases "deref h v")
  case None
  then show ?thesis
    by (simp add: member_def valid_def)
next
  case (Some ob)
  then obtain a where a: "v = JRef a" "a < length h" "ob = h ! a"
    by (cases v) (auto simp: deref_def split: if_splits)
  then have "ob \<in> set h"
    by simp
  with assms have held: "\<forall>x \<in> set (held ob). valid h x"
    by (simp add: wf_store_def list_all_iff)
  show ?thesis
  proof (cases ob)
    case (JArray xs)
    with Some show ?thesis
      by (simp add: member_def valid_def)
  next
    case (JObject ps)
    with Some held own_prop_held [of ps name] show ?thesis
      by (auto simp: member_def held_def valid_def)
  qed
qed

lemma normalized_extends:
  "\<exists>hs. snd (normalizedDisplayedChildren h data raw vtype limit) = h @ hs"
proof (cases "isArray (h @ [JArray []]) (rawValue raw)")
  case True
  then show ?thesis
    by (simp add: normalizedDisplayedChildren_def alloc_def array_map_eq Let_def)
next
  case False
  obtain a hs where dc: "displayedChildren h data raw vtype limit = (JRef a, h @ hs)"
    using displayed_fresh by blast
  with False show ?thesis
    by (simp add: normalizedDisplayedChildren_def alloc_def)
qed

lemma read_normalized_primitive:
  assumes "deref (h @ [JArray []]) (rawValue raw) = None"
  shows "read_array (normalizedDisplayedChildren h data raw vtype limit) = []"
proof -
  have "\<not> isArray (h @ [JArray []]) (rawValue raw)" "\<not> isObject (h @ [JArray []]) (rawValue raw)"
    using assms by (simp_all add: isArray_def isObject_def)
  then show ?thesis
    by (simp add: normalized_guarded read_displayed_other)
qed

lemma read_normalized_stable:
  assumes "valid h (val data)" and "valid h (rawValue raw)"
  shows "read_array (normalizedDisplayedChildren (h @ hs) data raw vtype limit) =
         read_array (normalizedDisplayedChildren h data raw vtype limit)"
proof (cases "deref h (rawValue raw)")
  case None
  then have "deref (h @ [JArray []]) (rawValue raw) = None"
    and "deref ((h @ hs) @ [JArray []]) (rawValue raw) = None"
    using assms(2) deref_append_valid [OF assms(2)] deref_append_valid [OF valid_append [OF assms(2)]]
    by simp_all
  then show ?thesis
    by (simp only: read_normalized_primitive)
next
  case (Some ob)
  have later: "deref (h @ hs) (rawValue raw) = Some ob"
    using Some by (rule deref_Some_append)
  show ?thesis
  proof (cases ob)
    case (JArray xs)
    with Some later show ?thesis
      by (simp add: read_normalized_array)
  next
    case (JObject ps)
    with Some later assms(1) valid_append [OF assms(1), of hs] show ?thesis
      by (simp add: read_normalized_object)
  qed
qed

lemma fields_abstract_stable:
  assumes "wf_store h" and "valid h (val data)"
  shows "fields_abstract (h @ hs) data = fields_abstract h data"
  using assms wf_member_valid [OF assms(1), of "val data" "''fields''"]
  by (simp add: fields_abstract_def member_append_valid)

lemma lacks_custom_type_stable:
  assumes "wf_store h" and "valid h (val data)"
  shows "lacks_custom_type (h @ hs) data = lacks_custom_type h data"
  using assms wf_member_valid [OF assms(1), of "val data" "''_custom''"]
  by (simp add: lacks_custom_type_def member_append_valid)

lemma displayed_value_stable:
  assumes "wf_store h" and "valid h (val data)"
  shows "normalizedDisplayedValue (h @ hs) data vtype dv = normalizedDisplayedValue h data vtype dv"
  unfolding normalizedDisplayedValue_def fields_abstract_stable [OF assms]
    lacks_custom_type_stable [OF assms]
  by (rule refl)

lemma fieldsCount_stable:
  assumes "valid h (rawValue raw)"
  shows "fieldsCount (h @ hs) raw = fieldsCount h raw"
  unfolding fieldsCount_def isArray_def isObject_def elems_def Object_keys_def Let_def
    deref_append_valid [OF assms]
  by (rule refl)

section \<open>The claims\<close>

text \<open>
  Claim C1. Submitting an in-place edit, with the field in the editing state, hands the
  transport exactly one patch: its path is the node's key split on the dot, its new key
  is absent, its type is the node's \<^verbatim>\<open>stateType\<close>, and its value is the editing text
  decoded by \<open>toSubmit\<close> under the raw view's custom type. Afterwards the field is no
  longer editing and the editing text is empty.
\<close>

theorem submit_emits_one_patch:
  assumes "editing s"
  shows "sent (submit toSubmit toEdit data raw s) =
           sent s @ [\<lparr>path = split (CHR ''.'') (key data),
                       inspectorId = sessionInspectorId s,
                       ptype = stateType data,
                       nodeId = sessionNodeId s,
                       state = \<lparr>newKey = None, stype = editingType s,
                                svalue = toSubmit (editingText s) (customType raw)\<rparr>\<rparr>]
         \<and> \<not> editing (submit toSubmit toEdit data raw s)
         \<and> editingText (submit toSubmit toEdit data raw s) = []"
  using assms
  by (simp add: submit_def toggled_def watch_editing_def toggleEditing_def editInspectorState_def)

text \<open>The same on a sample: the key \<^verbatim>\<open>a.b\<close>, the text \<^verbatim>\<open>42\<close>, the custom type \<^verbatim>\<open>set\<close>.\<close>

theorem submit_emits_one_patch_witness:
  "editing sample_session
   \<and> sent (submit sample_toSubmit sample_toEdit sample_data sample_raw sample_session) =
       [\<lparr>path = [''a'', ''b''], inspectorId = ''pinia'', ptype = Some ''setup'', nodeId = ''root'',
         state = \<lparr>newKey = None, stype = ''number'', svalue = JStr ''set:42''\<rparr>\<rparr>]
   \<and> \<not> editing (submit sample_toSubmit sample_toEdit sample_data sample_raw sample_session)
   \<and> editingText (submit sample_toSubmit sample_toEdit sample_data sample_raw sample_session) = []"
proof -
  have e: "editing sample_session"
    by (simp add: sample_session_def)
  show ?thesis
    using e submit_emits_one_patch [OF e, of sample_toSubmit sample_toEdit sample_data sample_raw]
    by (simp add: sample_session_def sample_data_def sample_raw_def sample_toSubmit_def)
qed

text \<open>
  Claim C2. Submitting a draft with key \<^verbatim>\<open>c\<close> under the parent \<^verbatim>\<open>a.b\<close> hands the
  transport one patch with path \<^verbatim>\<open>a, b, c\<close> and new key \<^verbatim>\<open>c\<close>; the type of its state
  is \<^verbatim>\<open>typeof\<close> of the decoded draft value, whatever type the parent declares. Submit and
  cancel both leave the draft slot cleared.
\<close>

theorem draft_submission_patch:
  assumes "key data = ''a.b''" and "draftKey (draftingNewProp s) = ''c''"
  shows "sent (submitDrafting toSubmit blank data s) =
           sent s @ [\<lparr>path = [''a'', ''b'', ''c''],
                       inspectorId = sessionInspectorId s,
                       ptype = stateType data,
                       nodeId = sessionNodeId s,
                       state = \<lparr>newKey = Some ''c'',
                                stype = typeof (toSubmit (draftValue (draftingNewProp s)) None),
                                svalue = toSubmit (draftValue (draftingNewProp s)) None\<rparr>\<rparr>]
         \<and> \<not> enable (draftingNewProp (submitDrafting toSubmit blank data s))
         \<and> draftKey (draftingNewProp (submitDrafting toSubmit blank data s)) = []
         \<and> \<not> enable (draftingNewProp (cancelDrafting blank s))
         \<and> draftKey (draftingNewProp (cancelDrafting blank s)) = []"
  using assms
  by (simp add: submitDrafting_def cancelDrafting_def resetDrafting_def editInspectorState_def)

text \<open>The same on a sample whose parent declares the type \<^verbatim>\<open>setup\<close>.\<close>

theorem draft_submission_patch_witness:
  "key sample_data = ''a.b'' \<and> draftKey (draftingNewProp sample_session) = ''c''
   \<and> sent (submitDrafting sample_toSubmit ''undefined'' sample_data sample_session) =
       [\<lparr>path = [''a'', ''b'', ''c''], inspectorId = ''pinia'', ptype = Some ''setup'',
         nodeId = ''root'',
         state = \<lparr>newKey = Some ''c'', stype = ''string'', svalue = JStr ''7''\<rparr>\<rparr>]
   \<and> \<not> enable (draftingNewProp (submitDrafting sample_toSubmit ''undefined'' sample_data sample_session))
   \<and> \<not> enable (draftingNewProp (cancelDrafting ''undefined'' sample_session))"
proof -
  have k: "key sample_data = ''a.b''"
    by (simp add: sample_data_def)
  have d: "draftKey (draftingNewProp sample_session) = ''c''"
    by (simp add: sample_session_def)
  show ?thesis
    using k d draft_submission_patch [OF k d, of sample_toSubmit "''undefined''"]
    by (simp add: sample_session_def sample_data_def sample_toSubmit_def)
qed

text \<open>
  Claim C3. For an object of the snapshot whose node is not of type \<^verbatim>\<open>custom\<close>, the
  children are the children of the first \<open>limit\<close> keys, ordered by their key text: the
  keys of the result are sorted. For a node of type \<^verbatim>\<open>custom\<close> they stay in the order
  of \<^verbatim>\<open>Object.keys\<close>. For an array they stay in index order. The node's value is a
  value of the snapshot.
\<close>

theorem children_order:
  "(deref h (rawValue raw) = Some (JObject ps) \<and> valid h (val data) \<and> vtype \<noteq> ''custom'' \<longrightarrow>
      read_array (normalizedDisplayedChildren h data raw vtype limit) =
        map Some
          (sort_key child_key
             (map (\<lambda>k. child (key data @ ''.'' @ k) (own_prop ps k) (inherit raw)
                         (child_editable data raw))
                  (take limit (map fst ps))))
      \<and> sorted (children_keys (normalizedDisplayedChildren h data raw vtype limit)))
   \<and> (deref h (rawValue raw) = Some (JObject ps) \<and> valid h (val data) \<and> vtype = ''custom'' \<longrightarrow>
      read_array (normalizedDisplayedChildren h data raw vtype limit) =
        map Some
          (map (\<lambda>k. child (key data @ ''.'' @ k) (own_prop ps k) (inherit raw)
                      (child_editable data raw))
               (take limit (map fst ps))))
   \<and> (deref h (rawValue raw) = Some (JArray xs) \<longrightarrow>
      read_array (normalizedDisplayedChildren h data raw vtype limit) =
        map Some
          (map (\<lambda>(item, i). child (key data @ ''.'' @ index_text i) item (inherit raw)
                               (child_editable data raw))
               (zip (take limit xs) [0 ..< min (length xs) limit])))"
proof -
  have srt: "sorted (map (\<lambda>ob. case ob of Some x \<Rightarrow> child_key x | None \<Rightarrow> [])
                        (map Some (sort_key child_key cs)))" for cs :: "jsobj list"
    by (simp add: comp_def)
  show ?thesis
    using srt by (auto simp: read_normalized_object read_normalized_array children_keys_read)
qed

text \<open>
  The object \<^verbatim>\<open>{b: 1, a: 2}\<close> gives the child \<^verbatim>\<open>a\<close>, then the child \<^verbatim>\<open>b\<close>; as a custom
  node it keeps \<^verbatim>\<open>b\<close>, \<^verbatim>\<open>a\<close>; an array keeps its indices in order.
\<close>

theorem children_order_witness:
  "deref ba_store (rawValue ba_raw) = Some (JObject [(''b'', JNum 1), (''a'', JNum 2)])
   \<and> valid ba_store (val ba_data)
   \<and> children_prop ''key'' (normalizedDisplayedChildren ba_store ba_data ba_raw ''plain-object'' 30)
       = [JStr ''o.a'', JStr ''o.b'']
   \<and> children_prop ''value'' (normalizedDisplayedChildren ba_store ba_data ba_raw ''plain-object'' 30)
       = [JNum 2, JNum 1]
   \<and> children_prop ''key'' (normalizedDisplayedChildren ba_store ba_data ba_raw ''custom'' 30)
       = [JStr ''o.b'', JStr ''o.a'']
   \<and> deref set_store (rawValue set_raw) = Some (JArray [JNum 1, JNum 2])
   \<and> children_prop ''key'' (normalizedDisplayedChildren set_store set_data set_raw ''custom'' 30)
       = [JStr ''tags.0'', JStr ''tags.1'']"
proof -
  have d: "deref ba_store (rawValue ba_raw) = Some (JObject [(''b'', JNum 1), (''a'', JNum 2)])"
    by (simp add: deref_def ba_store_def ba_raw_def)
  have v: "valid ba_store (val ba_data)"
    by (simp add: valid_def ba_store_def ba_data_def)
  have a: "deref set_store (rawValue set_raw) = Some (JArray [JNum 1, JNum 2])"
    by (simp add: deref_def set_store_def set_raw_def)
  have n0: "index_text 0 = ''0''"
    by code_simp
  have n1: "index_text (Suc 0) = ''1''"
    by code_simp
  have u: "[0 ..< 2] = [0, Suc 0]"
    by (simp add: upt_rec)
  show ?thesis
    using d v a
      children_order [of ba_store ba_raw "[(''b'', JNum 1), (''a'', JNum 2)]" ba_data "''plain-object''" 30 xs]
      children_order [of ba_store ba_raw "[(''b'', JNum 1), (''a'', JNum 2)]" ba_data "''custom''" 30 xs]
      children_order [of set_store set_raw ps set_data "''custom''" 30 "[JNum 1, JNum 2]"]
    by (simp add: children_prop_read obj_member_def child_def spread_def own_prop_def child_key_def
        ba_data_def ba_raw_def set_data_def set_raw_def n0 n1 u)
qed

text \<open>
  Claim C4. An array of 45 elements under the initial limit of 30 has exactly 30
  children while \<^verbatim>\<open>fieldsCount\<close> is 45, so 15 are left and the button is shown in the
  expanded node; one click makes the limit 60, under which all 45 are children and the
  button is gone. In the expanded node, for any positive limit, the button is shown
  exactly when the limit is below \<^verbatim>\<open>fieldsCount\<close>; so it is in any expanded node that
  has children.
\<close>

theorem array_truncation:
  assumes "deref h (rawValue raw) = Some (JArray xs)" and "length xs = 45"
  shows "length (read_array (normalizedDisplayedChildren h data raw vtype STATE_FIELDS_LIMIT_SIZE)) = 30
       \<and> fieldsCount h raw = 45
       \<and> fieldsCount h raw
           - length (read_array (normalizedDisplayedChildren h data raw vtype STATE_FIELDS_LIMIT_SIZE)) = 15
       \<and> showMoreShown h data raw vtype STATE_FIELDS_LIMIT_SIZE True
       \<and> showMore STATE_FIELDS_LIMIT_SIZE = 60
       \<and> length (read_array (normalizedDisplayedChildren h data raw vtype (showMore STATE_FIELDS_LIMIT_SIZE))) = 45
       \<and> \<not> showMoreShown h data raw vtype (showMore STATE_FIELDS_LIMIT_SIZE) True
       \<and> (\<forall>limit. 0 < limit \<longrightarrow>
             showMoreShown h data raw vtype limit True = (limit < fieldsCount h raw))
       \<and> (hasChildren h' data' raw' vtype' limit' \<longrightarrow>
             showMoreShown h' data' raw' vtype' limit' True = (limit' < fieldsCount h' raw'))"
proof -
  have len: "length (read_array (normalizedDisplayedChildren h data raw vtype limit)) = min 45 limit" for limit
    using length_read_array_array [OF assms(1)] assms(2) by simp
  have fc: "fieldsCount h raw = 45"
    using fieldsCount_array [OF assms(1)] assms(2) by simp
  have hc: "hasChildren h data raw vtype limit = (0 < limit)" for limit
    using len [of limit] by (auto simp: hasChildren_read simp flip: length_greater_0_conv)
  show ?thesis
    by (auto simp: len fc hc showMoreShown_def showMore_def STATE_FIELDS_LIMIT_SIZE_def)
qed

text \<open>The same on a store that holds an array of 45 elements.\<close>

theorem array_truncation_witness:
  "deref array45_store (rawValue list_raw) = Some (JArray (replicate 45 JNull))
   \<and> length (read_array (normalizedDisplayedChildren array45_store list_data list_raw ''array'' 30)) = 30
   \<and> fieldsCount array45_store list_raw = 45
   \<and> showMoreShown array45_store list_data list_raw ''array'' 30 True
   \<and> length (read_array (normalizedDisplayedChildren array45_store list_data list_raw ''array'' 60)) = 45
   \<and> \<not> showMoreShown array45_store list_data list_raw ''array'' 60 True"
proof -
  have d: "deref array45_store (rawValue list_raw) = Some (JArray (replicate 45 JNull))"
    by (simp add: deref_def array45_store_def list_raw_def)
  have l: "length (replicate 45 JNull) = 45"
    by simp
  show ?thesis
    using d array_truncation [OF d l, of list_data "''array''" array45_store list_data list_raw "''array''" 30]
    by (simp add: STATE_FIELDS_LIMIT_SIZE_def showMore_def)
qed

text \<open>
  Claim C5. The \<^verbatim>\<open>editable\<close> of every child is the conjunction of the parent's
  \<^verbatim>\<open>editable\<close> and of the raw custom type not being \<^verbatim>\<open>set\<close>; under the custom type
  \<^verbatim>\<open>set\<close> it is false for every child.
\<close>

theorem children_editable:
  "(\<forall>e \<in> set (children_prop ''editable'' (normalizedDisplayedChildren h data raw vtype limit)).
      e = JBool (editable data \<and> customType raw \<noteq> Some ''set''))
   \<and> (customType raw = Some ''set'' \<longrightarrow>
      (\<forall>e \<in> set (children_prop ''editable'' (normalizedDisplayedChildren h data raw vtype limit)).
         e = JBool False))"
proof -
  have "e = JBool (editable data \<and> customType raw \<noteq> Some ''set'')"
    if "e \<in> set (children_prop ''editable'' (normalizedDisplayedChildren h data raw vtype limit))" for e
  proof -
    from that obtain ob where ob: "ob \<in> set (read_array (normalizedDisplayedChildren h data raw vtype limit))"
      and e: "e = obj_member ob ''editable''"
      by (auto simp: children_prop_read)
    from children_shape_key [OF ob] obtain sfx item where
      "ob = Some (child (key data @ ''.'' @ sfx) item (inherit raw) (child_editable data raw))"
      by blast
    with e show ?thesis
      by (simp add: child_editable_prop child_editable_def isUneditableType_def)
  qed
  then show ?thesis
    by auto
qed

text \<open>An editable node over a set of two members: both children are not editable.\<close>

theorem children_editable_witness:
  "editable set_data \<and> customType set_raw = Some ''set''
   \<and> children_prop ''editable'' (normalizedDisplayedChildren set_store set_data set_raw ''custom'' 30)
       = [JBool False, JBool False]"
proof -
  have d: "deref set_store (rawValue set_raw) = Some (JArray [JNum 1, JNum 2])"
    by (simp add: deref_def set_store_def set_raw_def)
  have "length (children_prop ''editable'' (normalizedDisplayedChildren set_store set_data set_raw ''custom'' 30)) = 2"
    by (simp add: children_prop_read length_read_array_array [OF d])
  then obtain a b where ab:
    "children_prop ''editable'' (normalizedDisplayedChildren set_store set_data set_raw ''custom'' 30) = [a, b]"
    by (auto simp: length_Suc_conv numeral_2_eq_2)
  have c: "customType set_raw = Some ''set''"
    by (simp add: set_raw_def)
  show ?thesis
    using children_editable [of set_store set_data set_raw "''custom''" 30] ab c
    by (simp add: set_data_def)
qed

text \<open>
  Claim C6. The keys of the children are the parent's key, a dot, and the index (for an
  array: the indices below the limit, in order) or the property key (for an object: the
  first \<open>limit\<close> keys, in order for a custom node, sorted otherwise), none left out;
  every child key has the parent's key as a strict prefix. The inherited bag holds flags
  and none of them is named \<^verbatim>\<open>key\<close>; the node's value is a value of the snapshot.
\<close>

theorem children_keys_exact:
  assumes "''key'' \<notin> fst ` set (inherit raw)"
  shows "(deref h (rawValue raw) = Some (JArray xs) \<longrightarrow>
            children_prop ''key'' (normalizedDisplayedChildren h data raw vtype limit) =
              map (\<lambda>i. JStr (key data @ ''.'' @ index_text i)) [0 ..< min (length xs) limit])
       \<and> (deref h (rawValue raw) = Some (JObject ps) \<and> valid h (val data) \<and> vtype = ''custom'' \<longrightarrow>
            children_prop ''key'' (normalizedDisplayedChildren h data raw vtype limit) =
              map (\<lambda>k. JStr (key data @ ''.'' @ k)) (take limit (map fst ps)))
       \<and> (deref h (rawValue raw) = Some (JObject ps) \<and> valid h (val data) \<and> vtype \<noteq> ''custom'' \<longrightarrow>
            children_prop ''key'' (normalizedDisplayedChildren h data raw vtype limit) =
              map (\<lambda>k. JStr (key data @ ''.'' @ k)) (sort (take limit (map fst ps))))
       \<and> (\<forall>k \<in> set (children_prop ''key'' (normalizedDisplayedChildren h data raw vtype limit)).
            \<exists>s. k = JStr s \<and> strict_prefix (key data) s)"
proof -
  note kp = child_key_prop [OF assms]
  have arr: "children_prop ''key'' (normalizedDisplayedChildren h data raw vtype limit) =
               map (\<lambda>i. JStr (key data @ ''.'' @ index_text i)) [0 ..< min (length xs) limit]"
    if "deref h (rawValue raw) = Some (JArray xs)"
  proof -
    have len: "length (take limit xs) = length [0 ..< min (length xs) limit]"
      by simp
    have "map (\<lambda>x. JStr (key data @ ''.'' @ index_text (snd x)))
              (zip (take limit xs) [0 ..< min (length xs) limit])
          = map (\<lambda>i. JStr (key data @ ''.'' @ index_text i))
              (map snd (zip (take limit xs) [0 ..< min (length xs) limit]))"
      by (simp only: map_map comp_def)
    also have "map snd (zip (take limit xs) [0 ..< min (length xs) limit]) = [0 ..< min (length xs) limit]"
      using len by (rule map_snd_zip)
    finally have z: "map (\<lambda>x. JStr (key data @ ''.'' @ index_text (snd x)))
              (zip (take limit xs) [0 ..< min (length xs) limit])
          = map (\<lambda>i. JStr (key data @ ''.'' @ index_text i)) [0 ..< min (length xs) limit]" .
    have "children_prop ''key'' (normalizedDisplayedChildren h data raw vtype limit) =
            map (\<lambda>x. JStr (key data @ ''.'' @ index_text (snd x)))
              (zip (take limit xs) [0 ..< min (length xs) limit])"
      by (simp add: children_prop_read read_normalized_array [OF that] comp_def kp case_prod_beta)
    then show ?thesis
      by (simp only: z)
  qed
  have cus: "children_prop ''key'' (normalizedDisplayedChildren h data raw vtype limit) =
               map (\<lambda>k. JStr (key data @ ''.'' @ k)) (take limit (map fst ps))"
    if "deref h (rawValue raw) = Some (JObject ps)" "valid h (val data)" "vtype = ''custom''"
    using that by (simp add: children_prop_read read_normalized_object comp_def kp)
  have pln: "children_prop ''key'' (normalizedDisplayedChildren h data raw vtype limit) =
               map (\<lambda>k. JStr (key data @ ''.'' @ k)) (sort (take limit (map fst ps)))"
    if "deref h (rawValue raw) = Some (JObject ps)" "valid h (val data)" "vtype \<noteq> ''custom''"
    using that sort_children_by_key [OF assms, of "key data @ ''.''" "own_prop ps" "child_editable data raw" "take limit (map fst ps)"]
    by (simp add: children_prop_read read_normalized_object comp_def kp)
  have pre: "\<exists>s. k = JStr s \<and> strict_prefix (key data) s"
    if "k \<in> set (children_prop ''key'' (normalizedDisplayedChildren h data raw vtype limit))" for k
  proof -
    from that obtain ob where ob: "ob \<in> set (read_array (normalizedDisplayedChildren h data raw vtype limit))"
      and k: "k = obj_member ob ''key''"
      by (auto simp: children_prop_read)
    from children_shape_key [OF ob] obtain sfx item where
      "ob = Some (child (key data @ ''.'' @ sfx) item (inherit raw) (child_editable data raw))"
      by blast
    with k have "k = JStr (key data @ ''.'' @ sfx)"
      by (simp add: kp)
    then show ?thesis
      by (auto simp: strict_prefix_def)
  qed
  show ?thesis
  proof (intro conjI impI ballI)
    show "children_prop ''key'' (normalizedDisplayedChildren h data raw vtype limit) =
            map (\<lambda>i. JStr (key data @ ''.'' @ index_text i)) [0 ..< min (length xs) limit]"
      if "deref h (rawValue raw) = Some (JArray xs)"
      using that by (rule arr)
    show "children_prop ''key'' (normalizedDisplayedChildren h data raw vtype limit) =
            map (\<lambda>k. JStr (key data @ ''.'' @ k)) (take limit (map fst ps))"
      if "deref h (rawValue raw) = Some (JObject ps) \<and> valid h (val data) \<and> vtype = ''custom''"
      using that cus by simp
    show "children_prop ''key'' (normalizedDisplayedChildren h data raw vtype limit) =
            map (\<lambda>k. JStr (key data @ ''.'' @ k)) (sort (take limit (map fst ps)))"
      if "deref h (rawValue raw) = Some (JObject ps) \<and> valid h (val data) \<and> vtype \<noteq> ''custom''"
      using that pln by simp
    show "\<exists>s. k = JStr s \<and> strict_prefix (key data) s"
      if "k \<in> set (children_prop ''key'' (normalizedDisplayedChildren h data raw vtype limit))" for k
      using that by (rule pre)
  qed
qed

text \<open>
  On an array of two, on \<^verbatim>\<open>{b: 1, a: 2}\<close>, and on the same as a custom node under the
  limit 1.
\<close>

theorem children_keys_exact_witness:
  "''key'' \<notin> fst ` set (inherit set_raw)
   \<and> deref set_store (rawValue set_raw) = Some (JArray [JNum 1, JNum 2])
   \<and> children_prop ''key'' (normalizedDisplayedChildren set_store set_data set_raw ''custom'' 30)
       = [JStr ''tags.0'', JStr ''tags.1'']
   \<and> ''key'' \<notin> fst ` set (inherit ba_raw)
   \<and> deref ba_store (rawValue ba_raw) = Some (JObject [(''b'', JNum 1), (''a'', JNum 2)])
   \<and> valid ba_store (val ba_data)
   \<and> children_prop ''key'' (normalizedDisplayedChildren ba_store ba_data ba_raw ''plain-object'' 30)
       = [JStr ''o.a'', JStr ''o.b'']
   \<and> children_prop ''key'' (normalizedDisplayedChildren ba_store ba_data ba_raw ''custom'' 1)
       = [JStr ''o.b'']
   \<and> strict_prefix (key ba_data) ''o.b''"
proof -
  have k1: "''key'' \<notin> fst ` set (inherit set_raw)"
    by (simp add: set_raw_def)
  have k2: "''key'' \<notin> fst ` set (inherit ba_raw)"
    by (simp add: ba_raw_def)
  have d: "deref ba_store (rawValue ba_raw) = Some (JObject [(''b'', JNum 1), (''a'', JNum 2)])"
    by (simp add: deref_def ba_store_def ba_raw_def)
  have v: "valid ba_store (val ba_data)"
    by (simp add: valid_def ba_store_def ba_data_def)
  have a: "deref set_store (rawValue set_raw) = Some (JArray [JNum 1, JNum 2])"
    by (simp add: deref_def set_store_def set_raw_def)
  have n0: "index_text 0 = ''0''"
    by code_simp
  have n1: "index_text (Suc 0) = ''1''"
    by code_simp
  have u: "[0 ..< 2] = [0, Suc 0]"
    by (simp add: upt_rec)
  show ?thesis
    using k1 k2 d v a
      children_keys_exact [OF k1, of set_store "[JNum 1, JNum 2]" set_data "''custom''" 30 ps]
      children_keys_exact [OF k2, of ba_store xs ba_data "''plain-object''" 30 "[(''b'', JNum 1), (''a'', JNum 2)]"]
      children_keys_exact [OF k2, of ba_store xs ba_data "''custom''" 1 "[(''b'', JNum 1), (''a'', JNum 2)]"]
    by (simp add: ba_data_def set_data_def n0 n1 u)
qed

text \<open>
  Claim C7, amended. The displayed value, by priority. The type name in force is the
  custom wrapper's when it has a non-empty one, and the node's otherwise. When the name in
  force is \<^verbatim>\<open>Reactive\<close>, the result is that name alone and no value, whatever marks the
  value carries. Otherwise, for a value with no abstract mark, neither on the value itself
  nor on its custom wrapper, the result is the span tagged with the type, holding the
  formatted value (in quotes for a custom value with no explicit type, two quote marks for
  an empty text), followed by the name in force in parentheses when it is not empty. What
  is shown for a value that carries an abstract mark is left open.
\<close>

theorem displayed_value_priority:
  \<open>(extraDisplayedValue data = Some ''Reactive'' \<longrightarrow>
       normalizedDisplayedValue h data vtype dv = Inr ''Reactive'')
   \<and> (custom data = Some c \<and> customStateTypeName c = Some ''Reactive'' \<longrightarrow>
       normalizedDisplayedValue h data vtype dv = Inr ''Reactive'')
   \<and> ((\<forall>w. custom data = Some w \<longrightarrow> \<not> truthy_text (customStateTypeName w))
        \<and> stateTypeName data = Some ''Reactive'' \<longrightarrow>
       normalizedDisplayedValue h data vtype dv = Inr ''Reactive'')
   \<and> (custom data = Some c \<and> truthy_text (customStateTypeName c) \<longrightarrow>
       extraDisplayedValue data = customStateTypeName c)
   \<and> (extraDisplayedValue data \<noteq> Some ''Reactive''
        \<and> \<not> fields_abstract h data \<and> \<not> wrapper_fields_abstract h data
        \<and> \<not> (vtype = ''custom'' \<and> nullish (val data)) \<longrightarrow>
       normalizedDisplayedValue h data vtype dv =
         Inr (''<span class="'' @ vtype @ ''-state-type">''
              @ (if vtype = ''custom'' \<and> lacks_custom_type h data then ''"'' @ dv @ ''"''
                 else if dv = [] then ''""'' else dv)
              @ ''</span>''
              @ (if truthy_text (extraDisplayedValue data)
                 then '' <span class="text-gray-500">('' @ the_text (extraDisplayedValue data) @ '')</span>''
                 else [])))\<close>
proof -
  have sentinel: "normalizedDisplayedValue h data vtype dv = Inr ''Reactive''"
    if "extraDisplayedValue data = Some ''Reactive''"
    using that
    by (simp add: normalizedDisplayedValue_def array_includes_def directlyDisplayedValueMap_def
        the_text_def)
  have wrapper: "extraDisplayedValue data = customStateTypeName c"
    if "custom data = Some c" "truthy_text (customStateTypeName c)"
    using that by (simp add: extraDisplayedValue_def js_or_def)
  have node: "extraDisplayedValue data = stateTypeName data"
    if "\<forall>w. custom data = Some w \<longrightarrow> \<not> truthy_text (customStateTypeName w)"
    using that
    by (cases "custom data") (simp_all add: extraDisplayedValue_def js_or_def truthy_text_def)
  have scalar: \<open>normalizedDisplayedValue h data vtype dv =
         Inr (''<span class="'' @ vtype @ ''-state-type">''
              @ (if vtype = ''custom'' \<and> lacks_custom_type h data then ''"'' @ dv @ ''"''
                 else if dv = [] then ''""'' else dv)
              @ ''</span>''
              @ (if truthy_text (extraDisplayedValue data)
                 then '' <span class="text-gray-500">('' @ the_text (extraDisplayedValue data) @ '')</span>''
                 else []))\<close>
    if "extraDisplayedValue data \<noteq> Some ''Reactive''" "\<not> fields_abstract h data"
       "\<not> (vtype = ''custom'' \<and> nullish (val data))"
    using that
    by (auto simp: normalizedDisplayedValue_def Let_def array_includes_def
        directlyDisplayedValueMap_def split: option.splits)
  have c2: "normalizedDisplayedValue h data vtype dv = Inr ''Reactive''"
    if "custom data = Some c" "customStateTypeName c = Some ''Reactive''"
  proof -
    have "truthy_text (customStateTypeName c)"
      using that(2) by (simp add: truthy_text_def)
    with that wrapper have "extraDisplayedValue data = Some ''Reactive''"
      by simp
    then show ?thesis by (rule sentinel)
  qed
  have c3: "normalizedDisplayedValue h data vtype dv = Inr ''Reactive''"
    if "\<forall>w. custom data = Some w \<longrightarrow> \<not> truthy_text (customStateTypeName w)"
       "stateTypeName data = Some ''Reactive''"
    using node [OF that(1)] that(2) sentinel by simp
  show ?thesis
    using sentinel c2 c3 wrapper scalar by blast
qed

text \<open>
  A sample for each case: the name \<^verbatim>\<open>Reactive\<close> on the wrapper, on the node, and on the
  node under a wrapper with an empty name; the wrapper's name \<^verbatim>\<open>Ref\<close> in force over the
  node's; an empty text with the type name \<^verbatim>\<open>Ref\<close>; a custom value with no explicit
  type, in quotes; a custom value of type \<^verbatim>\<open>set\<close>, without.
\<close>

theorem displayed_value_priority_witness:
  \<open>normalizedDisplayedValue sample_heap reactive_data ''custom'' ''x'' = Inr ''Reactive''
   \<and> normalizedDisplayedValue sample_heap node_reactive_data ''number'' ''5'' = Inr ''Reactive''
   \<and> normalizedDisplayedValue sample_heap unnamed_wrapper_data ''number'' ''5'' = Inr ''Reactive''
   \<and> extraDisplayedValue shadowed_data = Some ''Ref''
   \<and> normalizedDisplayedValue sample_heap plain_data ''string'' [] =
       Inr ''<span class="string-state-type">""</span> <span class="text-gray-500">(Ref)</span>''
   \<and> normalizedDisplayedValue untyped_store untyped_data ''custom'' ''hello'' =
       Inr ''<span class="custom-state-type">"hello"</span>''
   \<and> normalizedDisplayedValue set_store set_data ''custom'' ''Set[2]'' =
       Inr ''<span class="custom-state-type">Set[2]</span>''\<close>
proof -
  have 1: "extraDisplayedValue reactive_data = Some ''Reactive''"
    by (simp add: extraDisplayedValue_def reactive_data_def js_or_def truthy_text_def)
  have 2: "custom reactive_data = Some \<lparr>customStateTypeName = Some ''Reactive''\<rparr>"
    by (simp add: reactive_data_def)
  have 3: "(\<forall>w. custom node_reactive_data = Some w \<longrightarrow> \<not> truthy_text (customStateTypeName w))
           \<and> stateTypeName node_reactive_data = Some ''Reactive''"
    by (simp add: node_reactive_data_def)
  have 4: "(\<forall>w. custom unnamed_wrapper_data = Some w \<longrightarrow> \<not> truthy_text (customStateTypeName w))
           \<and> stateTypeName unnamed_wrapper_data = Some ''Reactive''"
    by (simp add: unnamed_wrapper_data_def truthy_text_def)
  have 5: "custom shadowed_data = Some \<lparr>customStateTypeName = Some ''Ref''\<rparr>
           \<and> truthy_text (customStateTypeName \<lparr>customStateTypeName = Some ''Ref''\<rparr>)"
    by (simp add: shadowed_data_def truthy_text_def)
  have 6: "extraDisplayedValue plain_data \<noteq> Some ''Reactive''
           \<and> \<not> fields_abstract sample_heap plain_data \<and> \<not> wrapper_fields_abstract sample_heap plain_data
           \<and> \<not> (''string'' = ''custom'' \<and> nullish (val plain_data))"
    by (simp add: extraDisplayedValue_def plain_data_def js_or_def truthy_text_def
        fields_abstract_def wrapper_fields_abstract_def member_def deref_def)
  have e6: "extraDisplayedValue plain_data = Some ''Ref''"
    by (simp add: extraDisplayedValue_def plain_data_def js_or_def truthy_text_def)
  have 7: "extraDisplayedValue untyped_data \<noteq> Some ''Reactive''
           \<and> \<not> fields_abstract untyped_store untyped_data
           \<and> \<not> wrapper_fields_abstract untyped_store untyped_data
           \<and> \<not> (''custom'' = ''custom'' \<and> nullish (val untyped_data))
           \<and> lacks_custom_type untyped_store untyped_data"
    by (simp add: extraDisplayedValue_def untyped_data_def untyped_store_def js_or_def truthy_text_def
        fields_abstract_def wrapper_fields_abstract_def lacks_custom_type_def member_def deref_def
        own_prop_def nullish_def)
  have e7: "extraDisplayedValue untyped_data = None"
    by (simp add: extraDisplayedValue_def untyped_data_def js_or_def truthy_text_def)
  have 8: "extraDisplayedValue set_data \<noteq> Some ''Reactive''
           \<and> \<not> fields_abstract set_store set_data
           \<and> \<not> wrapper_fields_abstract set_store set_data
           \<and> \<not> (''custom'' = ''custom'' \<and> nullish (val set_data))
           \<and> \<not> lacks_custom_type set_store set_data"
    by (simp add: extraDisplayedValue_def set_data_def set_store_def js_or_def truthy_text_def
        fields_abstract_def wrapper_fields_abstract_def lacks_custom_type_def member_def deref_def
        own_prop_def nullish_def)
  have e8: "extraDisplayedValue set_data = None"
    by (simp add: extraDisplayedValue_def set_data_def js_or_def truthy_text_def)
  show ?thesis
    using 1 2 3 4 5 6 7 8
      displayed_value_priority [of reactive_data sample_heap "''custom''" "''x''"
        "\<lparr>customStateTypeName = Some ''Reactive''\<rparr>"]
      displayed_value_priority [of node_reactive_data sample_heap "''number''" "''5''" c]
      displayed_value_priority [of unnamed_wrapper_data sample_heap "''number''" "''5''" c]
      displayed_value_priority [of shadowed_data h "vt" "d" "\<lparr>customStateTypeName = Some ''Ref''\<rparr>"]
      displayed_value_priority [of plain_data sample_heap "''string''" "[]" c]
      displayed_value_priority [of untyped_data untyped_store "''custom''" "''hello''" c]
      displayed_value_priority [of set_data set_store "''custom''" "''Set[2]''" c]
    by (simp add: e6 e7 e8 truthy_text_def the_text_def)
qed

text \<open>
  Claim C7 as stated fails in two places. A node that declares \<^verbatim>\<open>Reactive\<close> under a
  wrapper named \<^verbatim>\<open>Ref\<close> shows its value with \<^verbatim>\<open>(Ref)\<close>, not the sentinel. A custom
  value whose wrapper marks its fields abstract,
  \<^verbatim>\<open>{_custom: {type: 'map', fields: {abstract: true}}}\<close>, shows \<^verbatim>\<open>Map\<close> in its span,
  not an empty slot: the source looks for the mark at \<^verbatim>\<open>value.fields\<close>, and reads the
  wrapper's type at \<^verbatim>\<open>value._custom.type\<close>.
\<close>

theorem displayed_value_counterexample:
  \<open>stateTypeName shadowed_data = Some ''Reactive''
   \<and> normalizedDisplayedValue sample_heap shadowed_data ''string'' ''x'' =
       Inr ''<span class="string-state-type">x</span> <span class="text-gray-500">(Ref)</span>''
   \<and> wrapper_fields_abstract map_store map_data
   \<and> extraDisplayedValue map_data = None
   \<and> normalizedDisplayedValue map_store map_data ''custom'' ''Map'' =
       Inr ''<span class="custom-state-type">Map</span>''\<close>
  by (simp add: shadowed_data_def map_data_def map_store_def sample_heap_def
      normalizedDisplayedValue_def extraDisplayedValue_def js_or_def truthy_text_def the_text_def
      array_includes_def directlyDisplayedValueMap_def fields_abstract_def
      wrapper_fields_abstract_def lacks_custom_type_def member_def deref_def own_prop_def
      nullish_def)

text \<open>
  Claim C8, amended. For a raw value that is not an array the result is empty when the
  child array just built is the very object that is the node's value, and the child array
  otherwise. The child array is newly allocated, so for a node whose value is a value of
  the snapshot the two are never the same and the children come back as computed. For an
  array the node's value is not looked at.
\<close>

theorem guard_is_idle:
  "(\<not> isArray (h @ [JArray []]) (rawValue raw) \<longrightarrow>
      read_array (normalizedDisplayedChildren h data raw vtype limit) =
        (if fst (displayedChildren h data raw vtype limit) = val data then []
         else read_array (displayedChildren h data raw vtype limit)))
   \<and> (valid h (val data) \<longrightarrow> fst (displayedChildren h data raw vtype limit) \<noteq> val data)
   \<and> (valid h (val data) \<and> \<not> isArray (h @ [JArray []]) (rawValue raw) \<longrightarrow>
      normalizedDisplayedChildren h data raw vtype limit = displayedChildren h data raw vtype limit)
   \<and> (isArray (h @ [JArray []]) (rawValue raw) \<longrightarrow>
      normalizedDisplayedChildren h (data\<lparr>val := w\<rparr>) raw vtype limit =
        normalizedDisplayedChildren h data raw vtype limit)"
proof -
  have "normalizedDisplayedChildren h (data\<lparr>val := w\<rparr>) raw vtype limit =
          normalizedDisplayedChildren h data raw vtype limit"
    if "isArray (h @ [JArray []]) (rawValue raw)"
    using that by (simp add: normalizedDisplayedChildren_def alloc_def child_editable_def)
  then show ?thesis
    using normalized_guarded [of h raw data vtype limit] guard_idle [of h data raw vtype limit]
      normalized_not_array [of h raw data vtype limit]
    by blast
qed

text \<open>
  On \<^verbatim>\<open>{b: 1, a: 2}\<close> the children are returned as computed; on an array they are the
  same even for a node value that is the address the child array is about to take.
\<close>

theorem guard_is_idle_witness:
  "\<not> isArray (ba_store @ [JArray []]) (rawValue ba_raw)
   \<and> valid ba_store (val ba_data)
   \<and> fst (displayedChildren ba_store ba_data ba_raw ''plain-object'' 30) \<noteq> val ba_data
   \<and> normalizedDisplayedChildren ba_store ba_data ba_raw ''plain-object'' 30 =
       displayedChildren ba_store ba_data ba_raw ''plain-object'' 30
   \<and> length (read_array (normalizedDisplayedChildren ba_store ba_data ba_raw ''plain-object'' 30)) = 2
   \<and> isArray (set_store @ [JArray []]) (rawValue set_raw)
   \<and> normalizedDisplayedChildren set_store (set_data\<lparr>val := JRef 6\<rparr>) set_raw ''custom'' 30 =
       normalizedDisplayedChildren set_store set_data set_raw ''custom'' 30"
proof -
  have na: "\<not> isArray (ba_store @ [JArray []]) (rawValue ba_raw)"
    by (simp add: isArray_def deref_def ba_store_def ba_raw_def)
  have ia: "isArray (set_store @ [JArray []]) (rawValue set_raw)"
    by (simp add: isArray_def deref_def set_store_def set_raw_def)
  have v: "valid ba_store (val ba_data)"
    by (simp add: valid_def ba_store_def ba_data_def)
  have d: "deref ba_store (rawValue ba_raw) = Some (JObject [(''b'', JNum 1), (''a'', JNum 2)])"
    by (simp add: deref_def ba_store_def ba_raw_def)
  have l: "length (read_array (normalizedDisplayedChildren ba_store ba_data ba_raw ''plain-object'' 30)) = 2"
    by (simp add: read_normalized_object [OF d v])
  show ?thesis
    using na v l ia guard_is_idle [of ba_store ba_raw ba_data "''plain-object''" 30 w]
      guard_is_idle [of set_store set_raw set_data "''custom''" 30 "JRef 6"]
    by simp
qed

text \<open>
  Claim C8 as stated fails on an object that holds itself: the store's object at address
  0 has the property \<^verbatim>\<open>self\<close> pointing to address 0, and normalization yields one child
  whose value is that same object, the parent container.
\<close>

theorem self_child_counterexample:
  "deref cyclic_store (rawValue cyclic_raw) = Some (JObject [(''self'', rawValue cyclic_raw)])
   \<and> val cyclic_data = rawValue cyclic_raw
   \<and> children_prop ''value''
        (normalizedDisplayedChildren cyclic_store cyclic_data cyclic_raw ''plain-object'' 30)
      = [rawValue cyclic_raw]"
proof -
  have d: "deref cyclic_store (rawValue cyclic_raw) = Some (JObject [(''self'', JRef 0)])"
    by (simp add: deref_def cyclic_store_def cyclic_raw_def)
  have v: "valid cyclic_store (val cyclic_data)"
    by (simp add: valid_def cyclic_store_def cyclic_data_def)
  show ?thesis
    using d read_normalized_object [OF d v, of "''plain-object''" 30]
    by (simp add: children_prop_read obj_member_def child_def spread_def own_prop_def
        cyclic_raw_def cyclic_data_def)
qed

text \<open>
  Claim C9. Normalization only allocates: the store after it is the store before it
  with new objects appended, so every object of the snapshot, the node's value among
  them, is unchanged. Computing the children again on the store so extended gives
  children with the same contents, the same field count and the same displayed value. The
  snapshot is well formed and the node's values are values of it. (That the same inputs
  give the same results is what being a function means; the formatter returns a text and
  no store.)
\<close>

theorem recompute_stable:
  assumes "wf_store h" and "valid h (val data)" and "valid h (rawValue raw)"
  shows "(\<exists>hs. snd (normalizedDisplayedChildren h data raw vtype limit) = h @ hs)
       \<and> read_array (normalizedDisplayedChildren (snd (normalizedDisplayedChildren h data raw vtype limit))
                       data raw vtype limit)
           = read_array (normalizedDisplayedChildren h data raw vtype limit)
       \<and> fieldsCount (snd (normalizedDisplayedChildren h data raw vtype limit)) raw = fieldsCount h raw
       \<and> normalizedDisplayedValue (snd (normalizedDisplayedChildren h data raw vtype limit)) data vtype dv
           = normalizedDisplayedValue h data vtype dv
       \<and> deref (snd (normalizedDisplayedChildren h data raw vtype limit)) (val data) = deref h (val data)"
proof -
  obtain hs where hs: "snd (normalizedDisplayedChildren h data raw vtype limit) = h @ hs"
    using normalized_extends by blast
  show ?thesis
    unfolding hs
    using read_normalized_stable [OF assms(2,3)] fieldsCount_stable [OF assms(3)]
      displayed_value_stable [OF assms(1,2)] deref_append_valid [OF assms(2)]
    by simp
qed

text \<open>On an object with one property, computed twice.\<close>

theorem recompute_stable_witness:
  "wf_store sample_heap \<and> valid sample_heap (val abstract_data) \<and> valid sample_heap (rawValue abstract_raw)
   \<and> read_array (normalizedDisplayedChildren sample_heap abstract_data abstract_raw ''plain-object'' 30)
       = [Some (child ''m.fields'' (JRef 1) [] True)]
   \<and> read_array (normalizedDisplayedChildren
                   (snd (normalizedDisplayedChildren sample_heap abstract_data abstract_raw ''plain-object'' 30))
                   abstract_data abstract_raw ''plain-object'' 30)
       = [Some (child ''m.fields'' (JRef 1) [] True)]
   \<and> normalizedDisplayedValue
        (snd (normalizedDisplayedChildren sample_heap abstract_data abstract_raw ''plain-object'' 30))
        abstract_data ''plain-object'' ''Object'' = Inr []"
proof -
  have w: "wf_store sample_heap"
    by (simp add: wf_store_def sample_heap_def held_def valid_def)
  have v: "valid sample_heap (val abstract_data)"
    by (simp add: valid_def sample_heap_def abstract_data_def)
  have r: "valid sample_heap (rawValue abstract_raw)"
    by (simp add: valid_def sample_heap_def abstract_raw_def)
  have d: "deref sample_heap (rawValue abstract_raw) = Some (JObject [(''fields'', JRef 1)])"
    by (simp add: deref_def sample_heap_def abstract_raw_def)
  have c: "read_array (normalizedDisplayedChildren sample_heap abstract_data abstract_raw ''plain-object'' 30)
       = [Some (child ''m.fields'' (JRef 1) [] True)]"
    using read_normalized_object [OF d v, of "''plain-object''" 30]
    by (simp add: own_prop_def abstract_data_def abstract_raw_def child_editable_def
        isUneditableType_def)
  have f: "normalizedDisplayedValue sample_heap abstract_data ''plain-object'' ''Object'' = Inr []"
    by (simp add: normalizedDisplayedValue_def extraDisplayedValue_def abstract_data_def js_or_def
        truthy_text_def array_includes_def directlyDisplayedValueMap_def
        fields_abstract_def member_def deref_def sample_heap_def own_prop_def)
  show ?thesis
    using w v r c f recompute_stable [OF w v r, of "''plain-object''" 30 "''Object''"]
    by simp
qed

text \<open>
  Claim C10. A draft is decoded by \<open>toSubmit\<close> on the draft text alone, with no custom
  type, for the value of the patch and for its type alike; an in-place edit is decoded
  with the custom type of the raw view.
\<close>

theorem draft_decoding_ignores_customType:
  "svalue (state (last (sent (submitDrafting toSubmit blank data s)))) =
      toSubmit (draftValue (draftingNewProp s)) None
   \<and> stype (state (last (sent (submitDrafting toSubmit blank data s)))) =
      typeof (toSubmit (draftValue (draftingNewProp s)) None)
   \<and> svalue (state (last (sent (submit toSubmit toEdit data raw s)))) =
      toSubmit (editingText s) (customType raw)"
  by (simp add: submitDrafting_def resetDrafting_def editInspectorState_def submit_def
      toggled_def watch_editing_def toggleEditing_def)

text \<open>
  On the sample the decoder marks what it was given: the edit of \<^verbatim>\<open>42\<close> under the custom
  type \<^verbatim>\<open>set\<close> is decoded with it, the draft \<^verbatim>\<open>7\<close> without.
\<close>

theorem draft_decoding_ignores_customType_witness:
  "customType sample_raw = Some ''set''
   \<and> svalue (state (last (sent (submit sample_toSubmit sample_toEdit sample_data sample_raw sample_session))))
       = JStr ''set:42''
   \<and> svalue (state (last (sent (submitDrafting sample_toSubmit ''undefined'' sample_data sample_session))))
       = JStr ''7''
   \<and> stype (state (last (sent (submitDrafting sample_toSubmit ''undefined'' sample_data sample_session))))
       = ''string''"
  using draft_decoding_ignores_customType
    [of sample_toSubmit "''undefined''" sample_data sample_session sample_toEdit sample_raw]
  by (simp add: sample_toSubmit_def sample_session_def sample_raw_def)

end
